theory Spec2Isabelle
  imports Complex_Main
begin

section \<open>Values shared by the database and the admin pages\<close>

text \<open>
  A JSON value, as stored in a JSONB column and as produced by the browser's
  JSON parser. An object is an association list from member names to
  values; numbers play no part below and are held as rationals.
\<close>

datatype json =
    JNull
  | JBool bool
  | JNumber rat
  | JString string
  | JArray "json list"
  | JObject "(string \<times> json) list"

text \<open>
  A PostgreSQL timestamp with time zone is a count of microseconds; the
  interval of one minute is sixty million of them.
\<close>

type_synonym timestamp = int

definition minute :: int where
  "minute = 60000000"

section \<open>The table ussd_sessions\<close>

text \<open>
  One row of the table created by the initialisation script. The columns
  declared NOT NULL (id, session_id, user_id, started_at) carry a plain
  value; every other column may hold NULL, which is \<open>None\<close>. The row is
  polymorphic in the representation of a point in time: the database holds
  timestamps, the admin page holds the same rows with ISO 8601 strings.
  The column \<open>id\<close> is named \<open>id_pk\<close> here.
\<close>

record 't session_row =
  id_pk :: int
  session_id :: string
  user_id :: int
  service_code :: "string option"
  current_menu :: "string option"
  session_data :: "json option"
  started_at :: 't
  last_activity :: "'t option"
  ended_at :: "'t option"
  is_active :: "bool option"

section \<open>SQL expressions: three-valued logic\<close>

text \<open>
  A comparison with NULL is NULL, and a WHERE clause selects a row only
  when its condition is TRUE.
\<close>

definition sql_eq :: "'a option \<Rightarrow> 'a option \<Rightarrow> bool option" where
  "sql_eq a b = (case (a, b) of (Some x, Some y) \<Rightarrow> Some (x = y) | _ \<Rightarrow> None)"

definition sql_lt :: "('a::linorder) option \<Rightarrow> 'a option \<Rightarrow> bool option" where
  "sql_lt a b = (case (a, b) of (Some x, Some y) \<Rightarrow> Some (x < y) | _ \<Rightarrow> None)"

fun sql_and :: "bool option \<Rightarrow> bool option \<Rightarrow> bool option" where
  "sql_and (Some False) _ = Some False"
| "sql_and _ (Some False) = Some False"
| "sql_and (Some True) (Some True) = Some True"
| "sql_and _ _ = None"

text \<open>
  \<open>NOW() - (timeout_minutes * INTERVAL '1 minute')\<close>; NULL when the argument
  is. An INTEGER number of minutes is at most some four thousand years, so
  the subtraction stays within the range of timestamps.
\<close>

definition cutoff :: "timestamp \<Rightarrow> int option \<Rightarrow> timestamp option" where
  "cutoff now timeout_minutes =
     (case timeout_minutes of None \<Rightarrow> None | Some m \<Rightarrow> Some (now - m * minute))"

text \<open>
  \<open>UPDATE t SET ... WHERE ...\<close>: every row whose condition is TRUE is
  replaced by its updated version, every other row is kept, and the number
  of rows updated is the statement's ROW_COUNT.
\<close>

fun sql_update :: "('r \<Rightarrow> bool option) \<Rightarrow> ('r \<Rightarrow> 'r) \<Rightarrow> 'r list \<Rightarrow> 'r list \<times> nat" where
  "sql_update cond upd [] = ([], 0)"
| "sql_update cond upd (r # rs) =
     (case sql_update cond upd rs of
        (rs', n) \<Rightarrow> if cond r = Some True then (upd r # rs', Suc n) else (r # rs', n))"

section \<open>The reaper: end_inactive_sessions\<close>

text \<open>
  The WHERE clause and the SET list of the function's single statement.
  \<open>NOW()\<close> is the start time of the transaction, one value for the whole
  statement, so it is an argument. The function is not declared STRICT, so
  its argument may be NULL. The result is the ROW_COUNT of the statement, a
  natural number; the function's INTEGER result holds it for every table of
  fewer than \<open>2^31\<close> rows.
\<close>

definition stale_where :: "timestamp \<Rightarrow> int option \<Rightarrow> (timestamp, 'a) session_row_scheme \<Rightarrow> bool option" where
  "stale_where now timeout_minutes s =
     sql_and (sql_eq (is_active s) (Some True))
             (sql_lt (last_activity s) (cutoff now timeout_minutes))"

definition end_set :: "'t \<Rightarrow> ('t, 'a) session_row_scheme \<Rightarrow> ('t, 'a) session_row_scheme" where
  "end_set now s = s\<lparr>is_active := Some False, ended_at := Some now\<rparr>"

definition end_inactive_sessions ::
  "timestamp \<Rightarrow> int option \<Rightarrow> (timestamp, 'a) session_row_scheme list
     \<Rightarrow> (timestamp, 'a) session_row_scheme list \<times> nat" where
  "end_inactive_sessions now timeout_minutes tbl =
     sql_update (stale_where now timeout_minutes) (end_set now) tbl"

text \<open>
  The staleness predicate in the words of the specification: the session is
  active and its last activity lies before the sweep time minus the timeout.
\<close>

definition is_stale :: "timestamp \<Rightarrow> int option \<Rightarrow> (timestamp, 'a) session_row_scheme \<Rightarrow> bool" where
  "is_stale now timeout_minutes s \<longleftrightarrow>
     is_active s = Some True \<and>
     (case (last_activity s, timeout_minutes) of
        (Some la, Some m) \<Rightarrow> la < now - m * minute
      | _ \<Rightarrow> False)"

text \<open>The number of active sessions of a table.\<close>

definition count_active :: "('t, 'a) session_row_scheme list \<Rightarrow> nat" where
  "count_active tbl = length (filter (\<lambda>s. is_active s = Some True) tbl)"

text \<open>A two-row table used to run the sweep: one stale session, one recent.\<close>

definition demo_row :: "int \<Rightarrow> string \<Rightarrow> timestamp \<Rightarrow> timestamp session_row" where
  "demo_row i sid t =
     \<lparr> id_pk = i, session_id = sid, user_id = 1, service_code = Some ''*123#'',
       current_menu = Some ''main'', session_data = None, started_at = t,
       last_activity = Some t, ended_at = None, is_active = Some True \<rparr>"

definition demo_table :: "timestamp session_row list" where
  "demo_table = [demo_row 1 ''sess_a'' 0, demo_row 2 ''sess_b'' (9 * minute)]"


section \<open>Column constraints of the tables\<close>

datatype sql_error =
    string_data_right_truncation
  | numeric_value_out_of_range
  | unique_violation
  | foreign_key_violation

text \<open>
  Storing a string into a \<open>VARCHAR(n)\<close> column: a longer string is an
  error, unless the excess characters are all spaces, in which case the
  string is cut to \<open>n\<close> characters. NULL is stored as it is.
\<close>

definition varchar :: "nat \<Rightarrow> string \<Rightarrow> sql_error + string" where
  "varchar n s =
     (if length s \<le> n then Inr s
      else if list_all (\<lambda>c. c = CHR '' '') (drop n s) then Inr (take n s)
      else Inl string_data_right_truncation)"

definition varchar_opt :: "nat \<Rightarrow> string option \<Rightarrow> sql_error + string option" where
  "varchar_opt n v =
     (case v of
        None \<Rightarrow> Inr None
      | Some s \<Rightarrow> (case varchar n s of Inl e \<Rightarrow> Inl e | Inr s' \<Rightarrow> Inr (Some s')))"

text \<open>
  A row of the table \<open>users\<close>; the columns \<open>id\<close>, \<open>last_activity\<close> and
  \<open>is_active\<close> are named \<open>usr_id\<close>, \<open>usr_last_activity\<close> and
  \<open>usr_is_active\<close> here.
\<close>

record user_row =
  usr_id :: int
  phone_number :: string
  first_name :: "string option"
  last_name :: "string option"
  registered_at :: timestamp
  usr_last_activity :: "timestamp option"
  usr_is_active :: "bool option"

text \<open>
  \<open>INSERT INTO users\<close>: the strings are fitted to their columns, and the
  primary key \<open>id\<close> and the column \<open>phone_number\<close> are unique.
\<close>

definition insert_user :: "user_row list \<Rightarrow> user_row \<Rightarrow> sql_error + user_row list" where
  "insert_user tbl u =
     (case varchar 20 (phone_number u) of
        Inl e \<Rightarrow> Inl e
      | Inr p \<Rightarrow>
     (case varchar_opt 50 (first_name u) of
        Inl e \<Rightarrow> Inl e
      | Inr fname \<Rightarrow>
     (case varchar_opt 50 (last_name u) of
        Inl e \<Rightarrow> Inl e
      | Inr lname \<Rightarrow>
          if \<exists>x \<in> set tbl. usr_id x = usr_id u \<or> phone_number x = p
          then Inl unique_violation
          else Inr (tbl @ [u\<lparr>phone_number := p, first_name := fname, last_name := lname\<rparr>]))))"

text \<open>
  \<open>INSERT INTO ussd_sessions\<close>: \<open>session_id VARCHAR(100) UNIQUE NOT NULL\<close>,
  \<open>service_code VARCHAR(20)\<close>, \<open>current_menu VARCHAR(100)\<close>, the primary
  key \<open>id\<close>, and \<open>user_id\<close> referencing \<open>users(id)\<close>.
\<close>

definition coerce_session :: "('t, 'a) session_row_scheme \<Rightarrow> sql_error + ('t, 'a) session_row_scheme" where
  "coerce_session r =
     (case varchar 100 (session_id r) of
        Inl e \<Rightarrow> Inl e
      | Inr sid \<Rightarrow>
     (case varchar_opt 20 (service_code r) of
        Inl e \<Rightarrow> Inl e
      | Inr sc \<Rightarrow>
     (case varchar_opt 100 (current_menu r) of
        Inl e \<Rightarrow> Inl e
      | Inr cm \<Rightarrow> Inr (r\<lparr>session_id := sid, service_code := sc, current_menu := cm\<rparr>))))"

definition insert_session ::
  "user_row list \<Rightarrow> ('t, 'a) session_row_scheme list \<Rightarrow> ('t, 'a) session_row_scheme
     \<Rightarrow> sql_error + ('t, 'a) session_row_scheme list" where
  "insert_session users tbl r =
     (case coerce_session r of
        Inl e \<Rightarrow> Inl e
      | Inr r' \<Rightarrow>
          if \<exists>x \<in> set tbl. id_pk x = id_pk r' \<or> session_id x = session_id r'
          then Inl unique_violation
          else if user_id r' \<notin> set (map usr_id users) then Inl foreign_key_violation
          else Inr (tbl @ [r']))"

text \<open>
  A row of the table \<open>ussd_logs\<close>; the columns \<open>id\<close>, \<open>user_id\<close>,
  \<open>session_id\<close> and \<open>created_at\<close> are named \<open>log_id\<close>, \<open>log_user_id\<close>,
  \<open>log_session_id\<close> and \<open>log_created_at\<close> here. The user and the session
  are NOT NULL, and the session is referenced by the \<open>id\<close> of its row.
\<close>

record log_row =
  log_id :: int
  log_user_id :: int
  log_session_id :: int
  input_text :: "string option"
  response_text :: "string option"
  menu_level :: "string option"
  log_created_at :: timestamp
  response_time_ms :: "int option"
  is_error :: "bool option"
  error_message :: "string option"

text \<open>Storing a number into an \<open>INTEGER\<close> column of 32 bits.\<close>

definition integer_opt :: "int option \<Rightarrow> sql_error + int option" where
  "integer_opt v =
     (case v of
        None \<Rightarrow> Inr None
      | Some n \<Rightarrow> if - 2147483648 \<le> n \<and> n \<le> 2147483647 then Inr (Some n)
                  else Inl numeric_value_out_of_range)"

text \<open>
  \<open>INSERT INTO ussd_logs\<close>: \<open>input_text VARCHAR(255)\<close>,
  \<open>menu_level VARCHAR(100)\<close>, \<open>response_time_ms INTEGER\<close>, the primary key
  \<open>id\<close>, \<open>user_id\<close> referencing \<open>users(id)\<close> and \<open>session_id\<close>
  referencing \<open>ussd_sessions(id)\<close>.
\<close>

definition insert_log ::
  "user_row list \<Rightarrow> ('t, 'a) session_row_scheme list \<Rightarrow> log_row list \<Rightarrow> log_row
     \<Rightarrow> sql_error + log_row list" where
  "insert_log users sessions_rows tbl r =
     (case varchar_opt 255 (input_text r) of
        Inl e \<Rightarrow> Inl e
      | Inr inp \<Rightarrow>
     (case varchar_opt 100 (menu_level r) of
        Inl e \<Rightarrow> Inl e
      | Inr lvl \<Rightarrow>
     (case integer_opt (response_time_ms r) of
        Inl e \<Rightarrow> Inl e
      | Inr ms \<Rightarrow>
          if \<exists>x \<in> set tbl. log_id x = log_id r then Inl unique_violation
          else if log_user_id r \<notin> set (map usr_id users)
                  \<or> log_session_id r \<notin> set (map id_pk sessions_rows)
               then Inl foreign_key_violation
          else Inr (tbl @ [r\<lparr>input_text := inp, menu_level := lvl, response_time_ms := ms\<rparr>]))))"

section \<open>The admin pages\<close>

text \<open>
  The notification shown by a page (the fields \<open>open\<close>, \<open>message\<close>,
  \<open>severity\<close> of the page's snackbar state). Strings are sequences of bytes,
  so the accented letters of the messages are written in UTF-8.
\<close>

record snackbar =
  snack_open :: bool
  message :: string
  severity :: string

definition e_acute :: string where
  "e_acute = [CHR 0xC3, CHR 0xA9]"

definition e_grave :: string where
  "e_grave = [CHR 0xC3, CHR 0xA8]"

definition a_grave :: string where
  "a_grave = [CHR 0xC3, CHR 0xA0]"

subsection \<open>Sessions page: handleEndSession\<close>

text \<open>
  The state of the Sessions page that \<open>handleEndSession\<close> reads and
  writes: the list of session objects and the notification. A session
  object has the columns of a session row, with timestamps as ISO strings,
  and whatever further fields the API sent (the phone number, for one): the
  spread \<open>...session\<close> copies them all, which is the record's extension.
\<close>

record 's sessions_page =
  sessions :: "'s list"
  sessions_snackbar :: snackbar

text \<open>
  \<open>confirmed\<close> is the answer to \<open>window.confirm\<close>, \<open>now\<close> the value of
  \<open>new Date().toISOString()\<close>. Every object whose \<open>id\<close> is the argument is
  replaced by a copy with \<open>is_active: false\<close> and \<open>ended_at: now\<close>.
\<close>

definition handleEndSession ::
  "bool \<Rightarrow> 't \<Rightarrow> int \<Rightarrow> ('t, 'a) session_row_scheme sessions_page
     \<Rightarrow> ('t, 'a) session_row_scheme sessions_page" where
  "handleEndSession confirmed now i page =
     (if confirmed then
        page\<lparr> sessions :=
                 map (\<lambda>session. if id_pk session = i
                                 then session\<lparr>is_active := Some False, ended_at := Some now\<rparr>
                                 else session)
                     (sessions page),
               sessions_snackbar :=
                 \<lparr> snack_open = True,
                   message = ''Session termin'' @ e_acute @ ''e avec succ'' @ e_grave @ ''s'',
                   severity = ''success'' \<rparr> \<rparr>
      else page)"

section \<open>Menu graphs\<close>

text \<open>
  A menu node and its options, as the seed data of \<open>ussd_services\<close> and the
  Services page write them: a title and a list of options, each with
  an input code, a display text and a \<open>next\<close> target.
\<close>

record menu_option =
  opt_code :: string
  opt_text :: string
  opt_next :: string

record menu_node =
  title :: string
  options :: "menu_option list"

type_synonym menu_graph = "(string \<times> menu_node) list"

text \<open>
  Modelled from the spec: the Menu Catalog's loading of one option of a
  schema-less JSON menu definition, which is not among the sources. An option
  loads when it is an object with string members \<open>code\<close>, \<open>text\<close> and
  \<open>next\<close>.
\<close>

definition load_option :: "json \<Rightarrow> menu_option option" where
  "load_option j =
     (case j of
        JObject kv \<Rightarrow>
          (case (map_of kv ''code'', map_of kv ''text'', map_of kv ''next'') of
             (Some (JString c), Some (JString t), Some (JString n)) \<Rightarrow>
               Some \<lparr> opt_code = c, opt_text = t, opt_next = n \<rparr>
           | _ \<Rightarrow> None)
      | _ \<Rightarrow> None)"

text \<open>
  Modelled from the spec: the Menu Catalog's loading of one node. A node
  loads when it is an object with a string \<open>title\<close> and an array
  \<open>options\<close> of options that load.
\<close>

definition load_node :: "json \<Rightarrow> menu_node option" where
  "load_node j =
     (case j of
        JObject kv \<Rightarrow>
          (case (map_of kv ''title'', map_of kv ''options'') of
             (Some (JString t), Some (JArray os)) \<Rightarrow>
               map_option (\<lambda>os'. \<lparr> title = t, options = os' \<rparr>) (those (map load_option os))
           | _ \<Rightarrow> None)
      | _ \<Rightarrow> None)"

text \<open>
  Modelled from the spec: the Menu Catalog's parsing of a menu definition
  into an in-memory graph. A definition loads when it is an object whose
  members are nodes that load.
\<close>

definition load_menu :: "json \<Rightarrow> menu_graph option" where
  "load_menu j =
     (case j of
        JObject nodes \<Rightarrow> those (map (\<lambda>(k, v). map_option (Pair k) (load_node v)) nodes)
      | _ \<Rightarrow> None)"

text \<open>
  Modelled from the spec: the root node of a service, at which a new
  session is positioned; the specification and the seeded menus name it
  \<open>main\<close>.
\<close>

definition root_node :: string where
  "root_node = ''main''"

text \<open>
  Modelled from the spec: the structural errors of a menu definition, which
  fail its load: a definition that does not have the shape of a graph, two
  options of one node with the same code (the node and the code), and a
  \<open>next\<close> that is neither a node nor a known action (the node and the
  target).
\<close>

datatype load_error =
    Malformed
  | DuplicateCode string string
  | MissingTarget string string

text \<open>
  Modelled from the spec: the search for a duplicate option code within one
  node, the first code that occurs again further down the list.
\<close>

fun duplicate_code :: "menu_option list \<Rightarrow> string option" where
  "duplicate_code [] = None"
| "duplicate_code (opt # opts) =
     (if opt_code opt \<in> set (map opt_code opts) then Some (opt_code opt)
      else duplicate_code opts)"

text \<open>
  Modelled from the spec: the search for a missing target within one node,
  the first \<open>next\<close> that is not among the known node and action
  identifiers.
\<close>

fun missing_target :: "string list \<Rightarrow> menu_option list \<Rightarrow> string option" where
  "missing_target known [] = None"
| "missing_target known (opt # opts) =
     (if opt_next opt \<in> set known then missing_target known opts
      else Some (opt_next opt))"

text \<open>
  Modelled from the spec: the validation of the nodes of a graph in order,
  which stops at the first structural error.
\<close>

fun check_nodes :: "string list \<Rightarrow> menu_graph \<Rightarrow> load_error option" where
  "check_nodes known [] = None"
| "check_nodes known ((k, node) # rest) =
     (case duplicate_code (options node) of
        Some c \<Rightarrow> Some (DuplicateCode k c)
      | None \<Rightarrow>
          (case missing_target known (options node) of
             Some n \<Rightarrow> Some (MissingTarget k n)
           | None \<Rightarrow> check_nodes known rest))"

text \<open>
  Modelled from the spec: the nodes of a graph that an option of the given
  node leads to.
\<close>

definition successors :: "menu_graph \<Rightarrow> string \<Rightarrow> string list" where
  "successors g k =
     (case map_of g k of
        None \<Rightarrow> []
      | Some node \<Rightarrow> filter (\<lambda>n. n \<in> set (map fst g)) (map opt_next (options node)))"

text \<open>
  Modelled from the spec: the nodes found from a set of nodes in at most
  the given number of rounds.
\<close>

fun reach :: "nat \<Rightarrow> menu_graph \<Rightarrow> string list \<Rightarrow> string list" where
  "reach 0 g found = found"
| "reach (Suc k) g found = reach k g (remdups (found @ concat (map (successors g) found)))"

text \<open>
  Modelled from the spec: the nodes that are not reached from the root,
  which are flagged as a warning and do not fail the load.
\<close>

definition unreachable_nodes :: "menu_graph \<Rightarrow> string list" where
  "unreachable_nodes g = filter (\<lambda>k. k \<notin> set (reach (length g) g [root_node])) (map fst g)"

text \<open>
  Modelled from the spec: the load of a menu definition by the Menu
  Catalog. The definition is parsed into a graph and validated against the
  known action identifiers; a structural error fails the load, and a valid
  graph is returned with its warnings.
\<close>

definition catalog_load :: "string list \<Rightarrow> json \<Rightarrow> load_error + (menu_graph \<times> string list)" where
  "catalog_load known_actions j =
     (case load_menu j of
        None \<Rightarrow> Inl Malformed
      | Some g \<Rightarrow>
          (case check_nodes (map fst g @ known_actions) g of
             Some err \<Rightarrow> Inl err
           | None \<Rightarrow> Inr (g, unreachable_nodes g)))"

text \<open>
  Modelled from the spec: the two structural rules in the words of the
  specification, against which the load is compared. Within every node no
  two options share a code, and every \<open>next\<close> is a node of the
  graph or a known action identifier.
\<close>

definition graph_ok :: "string list \<Rightarrow> menu_graph \<Rightarrow> bool" where
  "graph_ok known_actions g \<longleftrightarrow>
     (\<forall>k node. (k, node) \<in> set g \<longrightarrow>
        distinct (map opt_code (options node))
        \<and> (\<forall>opt \<in> set (options node).
              opt_next opt \<in> set (map fst g) \<or> opt_next opt \<in> set known_actions))"

text \<open>
  Modelled from the spec: a service definition as the Menu Catalog holds
  it, with its code, its loaded menu graph and its active flag.
\<close>

record service_definition =
  def_code :: string
  def_menu :: menu_graph
  def_active :: bool

text \<open>
  Modelled from the spec: the publication of a definition into the
  catalog. The definition is loaded first; when the load fails the catalog
  is not changed, otherwise the loaded definition replaces the one with its
  service code.
\<close>

definition catalog_publish ::
  "string list \<Rightarrow> string \<Rightarrow> bool \<Rightarrow> json \<Rightarrow> service_definition list
     \<Rightarrow> load_error + service_definition list" where
  "catalog_publish known_actions c active j catalog =
     (case catalog_load known_actions j of
        Inl err \<Rightarrow> Inl err
      | Inr (g, warnings) \<Rightarrow>
          Inr (\<lparr> def_code = c, def_menu = g, def_active = active \<rparr>
               # filter (\<lambda>d. def_code d \<noteq> c) catalog))"

text \<open>
  Modelled from the spec: the catalogs that publication builds, from the
  empty catalog.
\<close>

inductive published :: "string list \<Rightarrow> service_definition list \<Rightarrow> bool" where
  published_empty: "published known_actions []"
| published_more:
    "published known_actions catalog \<Longrightarrow>
     catalog_publish known_actions c active j catalog = Inr catalog' \<Longrightarrow>
     published known_actions catalog'"

text \<open>
  A definition with two options of code 1 in one node, and one with a
  target that is neither a node nor a known action.
\<close>

definition dup_menu :: json where
  "dup_menu =
     JObject [(''main'', JObject
       [(''title'', JString ''Menu''),
        (''options'', JArray
          [JObject [(''code'', JString ''1''), (''text'', JString ''A''), (''next'', JString ''option1'')],
           JObject [(''code'', JString ''1''), (''text'', JString ''B''), (''next'', JString ''option2'')]])])]"

definition dangling_menu :: json where
  "dangling_menu =
     JObject [(''main'', JObject
       [(''title'', JString ''Menu''),
        (''options'', JArray
          [JObject [(''code'', JString ''1''), (''text'', JString ''A''), (''next'', JString ''option1'')],
           JObject [(''code'', JString ''2''), (''text'', JString ''B''), (''next'', JString ''nowhere'')]])])]"

section \<open>The session store and the session engine\<close>

text \<open>
  The session the engine works on is a row of \<open>ussd_sessions\<close>, with the
  ten columns of the table and nothing else.
\<close>

type_synonym session = "timestamp session_row"

text \<open>
  Modelled from the spec: the accumulating data bag of a session, the
  column \<open>session_data\<close>. Its members are those of the stored object; a
  session without a stored object has none.
\<close>

definition bag_members :: "json option \<Rightarrow> (string \<times> json) list" where
  "bag_members bag = (case bag of Some (JObject kv) \<Rightarrow> kv | _ \<Rightarrow> [])"

text \<open>
  Modelled from the spec: writing one member of the data bag, which keeps
  every other member.
\<close>

definition bag_put :: "string \<Rightarrow> json \<Rightarrow> json option \<Rightarrow> json option" where
  "bag_put k v bag = Some (JObject ((k, v) # filter (\<lambda>m. fst m \<noteq> k) (bag_members bag)))"

text \<open>
  Modelled from the spec: the invalid-input counter of a session. The table
  has no column for it, so the engine keeps it in the data bag, as the
  member \<open>invalid_input_count\<close>; a bag without the member counts zero.
\<close>

definition invalid_inputs :: "json option \<Rightarrow> nat" where
  "invalid_inputs bag =
     (case map_of (bag_members bag) ''invalid_input_count'' of
        Some (JNumber q) \<Rightarrow> nat \<lfloor>q\<rfloor>
      | _ \<Rightarrow> 0)"

text \<open>Modelled from the spec: storing the invalid-input counter in the data bag.\<close>

definition set_invalid_inputs :: "nat \<Rightarrow> json option \<Rightarrow> json option" where
  "set_invalid_inputs n bag = bag_put ''invalid_input_count'' (JNumber (of_nat n)) bag"

text \<open>
  Modelled from the spec: the prior turn already applied to a session, its
  accumulated input text and the response computed for it, kept in the data
  bag as the members \<open>last_text\<close> and \<open>last_response\<close>. A re-delivery is
  recognised by comparing its input against it.
\<close>

definition applied_turn :: "json option \<Rightarrow> (string \<times> string) option" where
  "applied_turn bag =
     (case (map_of (bag_members bag) ''last_text'', map_of (bag_members bag) ''last_response'') of
        (Some (JString t), Some (JString r)) \<Rightarrow> Some (t, r)
      | _ \<Rightarrow> None)"

text \<open>Modelled from the spec: storing the applied turn in the data bag.\<close>

definition set_applied_turn :: "string \<Rightarrow> string \<Rightarrow> json option \<Rightarrow> json option" where
  "set_applied_turn t r bag =
     bag_put ''last_response'' (JString r) (bag_put ''last_text'' (JString t) bag)"

text \<open>
  Modelled from the spec: the faults of the engine, which is not among the
  sources. The first three are the kinds of the error table, the next
  three come from the store, and the last stands for any other internal
  fault.
\<close>

datatype fault =
    ServiceNotFound
  | ServiceInactive
  | SessionExpired
  | StoreTimeout
  | StoreConflict
  | StoreFailure sql_error
  | OtherFault string

text \<open>
  Modelled from the spec: the reads and writes of the Session Store and of
  the Menu Catalog that the engine calls; each is a point where the
  persistence layer may fail.
\<close>

datatype store_op =
    GetUser
  | CreateUser
  | GetService
  | GetSession
  | CreateSession
  | UpdateSession

text \<open>
  Modelled from the spec: the gateway request, with the session identifier,
  the phone number, the service code and the accumulated input text.
\<close>

record request =
  req_session_id :: string
  req_phone_number :: string
  req_service_code :: string
  req_text :: string

text \<open>
  Modelled from the spec: one interaction log entry as the engine emits it.
  The references to the user and to the row of the session are absent when
  the call failed before resolving them.
\<close>

record log_entry =
  entry_user :: "int option"
  entry_session :: "int option"
  entry_input :: string
  entry_response :: string
  entry_node :: "string option"
  entry_time :: timestamp
  entry_latency_ms :: nat
  entry_is_error :: bool
  entry_error_message :: "string option"

text \<open>
  Modelled from the spec: the surroundings of one call. \<open>store_fault op k\<close>
  is the fault, if any, of attempt \<open>k\<close> of the operation \<open>op\<close>;
  \<open>internal_fault\<close> is a fault of any kind raised inside the engine while
  it decides the transition; \<open>logger_down\<close> tells that the audit sink is
  out of reach; \<open>action_ids\<close> are the known action identifiers;
  \<open>resolver\<close> is the external Action Resolver, which answers with the
  cause of its failure or with a result text; \<open>retry_limit\<close> is the
  configured limit of invalid inputs; \<open>elapsed_ms\<close> is the latency
  measured for the call.
\<close>

record env =
  store_fault :: "store_op \<Rightarrow> nat \<Rightarrow> fault option"
  internal_fault :: "fault option"
  logger_down :: bool
  action_ids :: "string list"
  resolver :: "string \<Rightarrow> user_row \<Rightarrow> json option \<Rightarrow> string \<Rightarrow> string + string"
  retry_limit :: nat
  elapsed_ms :: nat

text \<open>
  Modelled from the spec: the persisted state the engine works on, that is
  the tables of users, sessions and logs with their id sequences, and the
  local buffer of the Interaction Logger.
\<close>

record system =
  users_tbl :: "user_row list"
  users_seq :: int
  sessions_tbl :: "session list"
  sessions_seq :: int
  logs :: "log_row list"
  logs_seq :: int
  log_buffer :: "log_entry list"

text \<open>Modelled from the spec: the default of the configured retry limit.\<close>

definition default_retry_limit :: nat where
  "default_retry_limit = 3"

text \<open>Modelled from the spec: the line break of a rendered response.\<close>

definition newline :: string where
  "newline = [CHR 0x0A]"

text \<open>
  Modelled from the spec: the rendering of a node as text, its title
  followed by one line per option, as in the example flow of the README.
\<close>

definition render_node :: "menu_node \<Rightarrow> string" where
  "render_node node =
     title node @ concat (map (\<lambda>opt. newline @ opt_code opt @ ''. '' @ opt_text opt) (options node))"

text \<open>
  Modelled from the spec: the error hint of a re-prompt; the specification
  asks for one without giving its wording.
\<close>

definition error_hint :: string where
  "error_hint = ''Invalid choice, try again.''"

text \<open>
  Modelled from the spec: the error message that ends a session beyond the
  retry limit; the wording is not given.
\<close>

definition too_many_invalid :: string where
  "too_many_invalid = ''Too many invalid inputs.''"

text \<open>
  Modelled from the spec: the generic failure message of a failed action;
  the wording is not given.
\<close>

definition generic_failure :: string where
  "generic_failure = ''The request could not be completed.''"

text \<open>
  Modelled from the spec: the user-visible message of a fault, an apology
  for an unknown or disabled service and for an expired session, a
  transient-error message for a store timeout, and a generic message for
  anything else; the wording is not given.
\<close>

fun fault_message :: "fault \<Rightarrow> string" where
  "fault_message ServiceNotFound = ''Sorry, this service is not available.''"
| "fault_message ServiceInactive = ''Sorry, this service is not available.''"
| "fault_message SessionExpired = ''Sorry, your session has expired.''"
| "fault_message StoreTimeout = ''A temporary error occurred, please try again.''"
| "fault_message _ = ''An error occurred, please try again later.''"

text \<open>
  Modelled from the spec: the error message logged for a fault, kept on the
  server side.
\<close>

fun fault_name :: "fault \<Rightarrow> string" where
  "fault_name ServiceNotFound = ''ServiceNotFound''"
| "fault_name ServiceInactive = ''ServiceInactive''"
| "fault_name SessionExpired = ''SessionExpired''"
| "fault_name StoreTimeout = ''StoreTimeout''"
| "fault_name StoreConflict = ''StoreConflict''"
| "fault_name (StoreFailure e) = ''StoreFailure''"
| "fault_name (OtherFault m) = m"

text \<open>
  Modelled from the spec: the newest input token, the last of the
  \<open>*\<close>-delimited segments of the accumulated text.
\<close>

definition newest_token :: "string \<Rightarrow> string" where
  "newest_token text = rev (takeWhile (\<lambda>c. c \<noteq> CHR ''*'') (rev text))"

text \<open>An order on nullable timestamps: the second is not earlier than the first.\<close>

definition not_earlier :: "timestamp option \<Rightarrow> timestamp option \<Rightarrow> bool" where
  "not_earlier a b =
     (case a of None \<Rightarrow> True | Some x \<Rightarrow> (case b of None \<Rightarrow> False | Some y \<Rightarrow> x \<le> y))"

text \<open>
  Modelled from the spec: one call of a Store operation under its bounded
  timeout. A timeout is retried once; the outcome is the fault that remains,
  if any.
\<close>

definition store_call :: "env \<Rightarrow> store_op \<Rightarrow> fault option" where
  "store_call e op =
     (case store_fault e op 0 of
        None \<Rightarrow> None
      | Some StoreTimeout \<Rightarrow> store_fault e op 1
      | Some f \<Rightarrow> Some f)"

text \<open>
  Modelled from the spec: the Store's \<open>get\<close>, which finds the session with
  the given identifier.
\<close>

definition store_get :: "string \<Rightarrow> session list \<Rightarrow> session option" where
  "store_get sid tbl = find (\<lambda>s. session_id s = sid) tbl"

text \<open>
  Modelled from the spec: the Store's \<open>create\<close>. It inserts the row under
  the constraints of the table; when the insertion is refused because the
  identifier is taken, it loads the stored winner and discards its own row.
  The result is the table, the stored session, and whether it was created.
\<close>

definition store_create ::
  "user_row list \<Rightarrow> session list \<Rightarrow> session \<Rightarrow> fault + (session list \<times> session \<times> bool)" where
  "store_create users tbl s =
     (case insert_session users tbl s of
        Inr tbl' \<Rightarrow> Inr (tbl', last tbl', True)
      | Inl unique_violation \<Rightarrow>
          (case coerce_session s of
             Inl e \<Rightarrow> Inl (StoreFailure e)
           | Inr s' \<Rightarrow>
               (case store_get (session_id s') tbl of
                  Some winner \<Rightarrow> Inr (tbl, winner, False)
                | None \<Rightarrow> Inl (StoreFailure unique_violation)))
      | Inl e \<Rightarrow> Inl (StoreFailure e))"

text \<open>
  Modelled from the spec: the SET list of the Store's \<open>update\<close>, the
  columns an engine turn changes.
\<close>

definition write_back :: "session \<Rightarrow> string option \<Rightarrow> session \<Rightarrow> session" where
  "write_back new menu x =
     x\<lparr> current_menu := menu,
        session_data := session_data new,
        last_activity := last_activity new,
        ended_at := ended_at new,
        is_active := is_active new \<rparr>"

text \<open>
  Modelled from the spec: the WHERE clause of the Store's \<open>update\<close>. The
  row is the one with the session's identifier, its last activity is the
  one that was read, and it is not later than the last activity to be
  written; a stored last activity beyond either has advanced.
\<close>

definition update_where :: "session \<Rightarrow> session \<Rightarrow> session \<Rightarrow> bool option" where
  "update_where read new x =
     Some (session_id x = session_id read
           \<and> last_activity x = last_activity read
           \<and> not_earlier (last_activity x) (last_activity new))"

text \<open>
  Modelled from the spec: the Store's \<open>update\<close>, guarded by optimistic
  concurrency. It is a conditional UPDATE; when it matches no row, the
  stored session has advanced, nothing is written, and a conflict is
  signalled.
\<close>

definition store_update :: "session \<Rightarrow> session \<Rightarrow> session list \<Rightarrow> fault + session list" where
  "store_update read new tbl =
     (case varchar_opt 100 (current_menu new) of
        Inl e \<Rightarrow> Inl (StoreFailure e)
      | Inr menu \<Rightarrow>
          (case sql_update (update_where read new) (write_back new menu) tbl of
             (tbl', n) \<Rightarrow> if n = 0 then Inl StoreConflict else Inr tbl'))"

text \<open>
  Modelled from the spec: step 1 of \<open>handleInteraction\<close>. The phone number
  is fitted to its column, and the user is found by it and created when
  absent.
\<close>

definition resolve_user :: "env \<Rightarrow> timestamp \<Rightarrow> string \<Rightarrow> system \<Rightarrow> (fault + user_row) \<times> system" where
  "resolve_user e now phone st =
     (case varchar 20 phone of
        Inl err \<Rightarrow> (Inl (StoreFailure err), st)
      | Inr p \<Rightarrow>
     (case store_call e GetUser of
        Some f \<Rightarrow> (Inl f, st)
      | None \<Rightarrow>
          (case find (\<lambda>u. phone_number u = p) (users_tbl st) of
             Some u \<Rightarrow> (Inr u, st)
           | None \<Rightarrow>
               (case store_call e CreateUser of
                  Some f \<Rightarrow> (Inl f, st)
                | None \<Rightarrow>
                    (case insert_user (users_tbl st)
                            \<lparr> usr_id = users_seq st + 1, phone_number = p,
                              first_name = None, last_name = None, registered_at = now,
                              usr_last_activity = Some now, usr_is_active = Some True \<rparr> of
                       Inl err \<Rightarrow> (Inl (StoreFailure err), st\<lparr>users_seq := users_seq st + 1\<rparr>)
                     | Inr tbl' \<Rightarrow>
                         (Inr (last tbl'),
                          st\<lparr>users_tbl := tbl', users_seq := users_seq st + 1\<rparr>))))))"

text \<open>
  Modelled from the spec: step 2 of \<open>handleInteraction\<close>. The service is
  read from the catalog by its code and must be active.
\<close>

definition resolve_service ::
  "env \<Rightarrow> service_definition list \<Rightarrow> string \<Rightarrow> fault + service_definition" where
  "resolve_service e catalog c =
     (case store_call e GetService of
        Some f \<Rightarrow> Inl f
      | None \<Rightarrow>
          (case find (\<lambda>d. def_code d = c) catalog of
             None \<Rightarrow> Inl ServiceNotFound
           | Some d \<Rightarrow> if def_active d then Inr d else Inl ServiceInactive))"

text \<open>
  Modelled from the spec: the session created for an unseen identifier,
  active, at the root node, with an empty data bag and the columns that
  have a default in the table at their default.
\<close>

definition new_session :: "timestamp \<Rightarrow> request \<Rightarrow> string \<Rightarrow> user_row \<Rightarrow> int \<Rightarrow> session" where
  "new_session now req sid u i =
     \<lparr> id_pk = i, session_id = sid, user_id = usr_id u,
       service_code = Some (req_service_code req), current_menu = Some root_node,
       session_data = None, started_at = now, last_activity = Some now,
       ended_at = None, is_active = Some True \<rparr>"

text \<open>
  Modelled from the spec: what step 3 finds for a request: a session
  created by this call, a stored active session to continue, or a stored
  session to which this very input was applied before, with the response
  computed then.
\<close>

datatype located =
    Created session
  | Loaded session
  | Redelivery session string

text \<open>
  Modelled from the spec: a request for a stored session. An input equal to
  the one of the applied prior turn is a re-delivery; otherwise an active
  session is loaded and an inactive one is the fault \<open>SessionExpired\<close>.
\<close>

definition seen :: "string \<Rightarrow> session \<Rightarrow> fault + located" where
  "seen text s =
     (case applied_turn (session_data s) of
        Some (t, r) \<Rightarrow>
          if t = text then Inr (Redelivery s r)
          else if is_active s = Some True then Inr (Loaded s) else Inl SessionExpired
      | None \<Rightarrow> if is_active s = Some True then Inr (Loaded s) else Inl SessionExpired)"

text \<open>
  Modelled from the spec: step 3 of \<open>handleInteraction\<close>. The session
  identifier is fitted to its column; a session with an unseen identifier
  is created, a seen one is treated as above.
\<close>

definition resolve_session ::
  "env \<Rightarrow> timestamp \<Rightarrow> request \<Rightarrow> user_row \<Rightarrow> system \<Rightarrow> (fault + located) \<times> system" where
  "resolve_session e now req u st =
     (case varchar 100 (req_session_id req) of
        Inl err \<Rightarrow> (Inl (StoreFailure err), st)
      | Inr sid \<Rightarrow>
     (case store_call e GetSession of
        Some f \<Rightarrow> (Inl f, st)
      | None \<Rightarrow>
          (case store_get sid (sessions_tbl st) of
             Some s \<Rightarrow> (seen (req_text req) s, st)
           | None \<Rightarrow>
               (case store_call e CreateSession of
                  Some f \<Rightarrow> (Inl f, st)
                | None \<Rightarrow>
                    (case store_create (users_tbl st) (sessions_tbl st)
                            (new_session now req sid u (sessions_seq st + 1)) of
                       Inl f \<Rightarrow> (Inl f, st\<lparr>sessions_seq := sessions_seq st + 1\<rparr>)
                     | Inr (tbl', s, created) \<Rightarrow>
                         if created
                         then (Inr (Created s),
                               st\<lparr>sessions_tbl := tbl', sessions_seq := sessions_seq st + 1\<rparr>)
                         else (seen (req_text req) s,
                               st\<lparr>sessions_seq := sessions_seq st + 1\<rparr>))))))"

text \<open>
  Modelled from the spec: the end of a session, inactive with \<open>ended_at\<close>
  at the time of the call.
\<close>

definition ended :: "timestamp \<Rightarrow> session \<Rightarrow> session" where
  "ended now s = s\<lparr>is_active := Some False, ended_at := Some now\<rparr>"

text \<open>
  Modelled from the spec: steps 4 and 5 of \<open>handleInteraction\<close>, the
  transition decided for one turn. It gives the response text, the session
  as it is to be persisted, and the error message to log, if any. A session
  just created is shown the root node. Otherwise the newest token is matched
  against the option codes of the current node. Without a match the
  invalid-input counter goes up by one, and the node is shown again with
  the error hint while the counter is at most the retry limit; beyond the
  limit the session is ended with an error. With a match the counter is
  reset, and the session moves to the node named by \<open>next\<close>, or the action
  named by \<open>next\<close> is resolved and the session is ended, with the result
  text on success and with the generic failure message on failure, the
  cause going to the log only.
\<close>

definition turn ::
  "env \<Rightarrow> service_definition \<Rightarrow> user_row \<Rightarrow> session \<Rightarrow> bool \<Rightarrow> timestamp \<Rightarrow> string
     \<Rightarrow> fault + (string \<times> session \<times> string option)" where
  "turn e svc u s is_new now text =
     (if is_new then
        (case map_of (def_menu svc) root_node of
           None \<Rightarrow> Inl (OtherFault ''root node missing'')
         | Some node \<Rightarrow> Inr (''CON '' @ render_node node, s, None))
      else
        (case current_menu s of
           None \<Rightarrow> Inl (OtherFault ''session has no current node'')
         | Some n \<Rightarrow>
        (case map_of (def_menu svc) n of
           None \<Rightarrow> Inl (OtherFault ''current node missing'')
         | Some node \<Rightarrow>
        (case find (\<lambda>opt. opt_code opt = newest_token text) (options node) of
           None \<Rightarrow>
             (let c = invalid_inputs (session_data s) + 1;
                  s1 = s\<lparr>last_activity := Some now,
                          session_data := set_invalid_inputs c (session_data s)\<rparr>
              in if c \<le> retry_limit e
                 then Inr (''CON '' @ error_hint @ newline @ render_node node, s1, None)
                 else Inr (''END '' @ too_many_invalid, ended now s1, Some ''InvalidInput''))
         | Some opt \<Rightarrow>
             (let s0 = s\<lparr>last_activity := Some now,
                          session_data := set_invalid_inputs 0 (session_data s)\<rparr>
              in case map_of (def_menu svc) (opt_next opt) of
                   Some node' \<Rightarrow>
                     Inr (''CON '' @ render_node node', s0\<lparr>current_menu := Some (opt_next opt)\<rparr>, None)
                 | None \<Rightarrow>
                     if opt_next opt \<in> set (action_ids e) then
                       (case resolver e (opt_next opt) u (session_data s) (def_code svc) of
                          Inr result \<Rightarrow> Inr (''END '' @ result, ended now s0, None)
                        | Inl cause \<Rightarrow> Inr (''END '' @ generic_failure, ended now s0, Some cause))
                     else Inl (OtherFault ''unknown target''))))))"

text \<open>
  Modelled from the spec: step 6 of \<open>handleInteraction\<close>. The decided
  session is persisted through the Store's conditional update.
\<close>

definition persist :: "env \<Rightarrow> session \<Rightarrow> session \<Rightarrow> session list \<Rightarrow> fault + session list" where
  "persist e read new tbl =
     (case store_call e UpdateSession of
        Some f \<Rightarrow> Inl f
      | None \<Rightarrow> store_update read new tbl)"

text \<open>
  Modelled from the spec: the outcome of a call that raised no fault: a
  turn applied now, with its response and the error message to log, or the
  response of a turn applied before.
\<close>

datatype outcome =
    Applied string "string option"
  | Replayed string

text \<open>
  Modelled from the spec: the transition of a located session, steps 4 to
  6. A fault inside the engine, the decision of the turn, and the persisted
  session, which records the input and the response as the applied turn.
\<close>

definition advance ::
  "env \<Rightarrow> service_definition \<Rightarrow> user_row \<Rightarrow> session \<Rightarrow> bool \<Rightarrow> timestamp \<Rightarrow> string \<Rightarrow> system
     \<Rightarrow> (fault + outcome) \<times> system" where
  "advance e svc u s is_new now text st =
     (case internal_fault e of
        Some f \<Rightarrow> (Inl f, st)
      | None \<Rightarrow>
     (case turn e svc u s is_new now text of
        Inl f \<Rightarrow> (Inl f, st)
      | Inr (resp, s', err) \<Rightarrow>
     (case persist e s (s'\<lparr>session_data := set_applied_turn text resp (session_data s')\<rparr>)
             (sessions_tbl st) of
        Inl f \<Rightarrow> (Inl f, st)
      | Inr tbl' \<Rightarrow> (Inr (Applied resp err), st\<lparr>sessions_tbl := tbl'\<rparr>))))"

text \<open>
  Modelled from the spec: the call up to the persisted transition, steps 1
  to 6 of \<open>handleInteraction\<close> in order. The outcome is a fault or the
  outcome above, together with the user and the session resolved so far and
  the state reached. A re-delivery is answered from the computed result and
  changes nothing.
\<close>

definition interact ::
  "env \<Rightarrow> service_definition list \<Rightarrow> timestamp \<Rightarrow> request \<Rightarrow> system
     \<Rightarrow> (fault + outcome) \<times> user_row option \<times> session option \<times> system" where
  "interact e catalog now req st =
     (case resolve_user e now (req_phone_number req) st of
        (Inl f, st1) \<Rightarrow> (Inl f, None, None, st1)
      | (Inr u, st1) \<Rightarrow>
     (case resolve_service e catalog (req_service_code req) of
        Inl f \<Rightarrow> (Inl f, Some u, None, st1)
      | Inr svc \<Rightarrow>
     (case resolve_session e now req u st1 of
        (Inl f, st2) \<Rightarrow> (Inl f, Some u, None, st2)
      | (Inr (Redelivery s r), st2) \<Rightarrow> (Inr (Replayed r), Some u, Some s, st2)
      | (Inr (Created s), st2) \<Rightarrow>
          (case advance e svc u s True now (req_text req) st2 of
             (out, st3) \<Rightarrow> (out, Some u, Some s, st3))
      | (Inr (Loaded s), st2) \<Rightarrow>
          (case advance e svc u s False now (req_text req) st2 of
             (out, st3) \<Rightarrow> (out, Some u, Some s, st3)))))"

text \<open>
  Modelled from the spec: the log entry of a call, step 7 of
  \<open>handleInteraction\<close>.
\<close>

definition entry_of ::
  "env \<Rightarrow> timestamp \<Rightarrow> request \<Rightarrow> user_row option \<Rightarrow> session option \<Rightarrow> string \<Rightarrow> string option
     \<Rightarrow> log_entry" where
  "entry_of e now req u s resp err =
     \<lparr> entry_user = map_option usr_id u,
       entry_session = map_option id_pk s,
       entry_input = req_text req,
       entry_response = resp,
       entry_node = (case s of None \<Rightarrow> None | Some s' \<Rightarrow> current_menu s'),
       entry_time = now,
       entry_latency_ms = elapsed_ms e,
       entry_is_error = (err \<noteq> None),
       entry_error_message = err \<rparr>"

text \<open>
  Modelled from the spec: the row of \<open>ussd_logs\<close> for an entry with its
  references.
\<close>

definition entry_row :: "int \<Rightarrow> int \<Rightarrow> int \<Rightarrow> log_entry \<Rightarrow> log_row" where
  "entry_row i uid sid entry =
     \<lparr> log_id = i, log_user_id = uid, log_session_id = sid,
       input_text = Some (entry_input entry),
       response_text = Some (entry_response entry),
       menu_level = entry_node entry,
       log_created_at = entry_time entry,
       response_time_ms = Some (int (entry_latency_ms entry)),
       is_error = Some (entry_is_error entry),
       error_message = entry_error_message entry \<rparr>"

text \<open>
  Modelled from the spec: \<open>record\<close> of the Interaction Logger, which never
  fails for its caller. An entry with both references is inserted into
  \<open>ussd_logs\<close>; an entry that the table refuses, an entry without a
  reference, and any entry while the sink is out of reach are buffered
  locally.
\<close>

definition logger_record :: "env \<Rightarrow> log_entry \<Rightarrow> system \<Rightarrow> system" where
  "logger_record e entry st =
     (if logger_down e then st\<lparr>log_buffer := log_buffer st @ [entry]\<rparr>
      else
        (case (entry_user entry, entry_session entry) of
           (Some uid, Some sid) \<Rightarrow>
             (case insert_log (users_tbl st) (sessions_tbl st) (logs st)
                     (entry_row (logs_seq st + 1) uid sid entry) of
                Inr tbl' \<Rightarrow> st\<lparr>logs := tbl', logs_seq := logs_seq st + 1\<rparr>
              | Inl err \<Rightarrow>
                  st\<lparr>logs_seq := logs_seq st + 1, log_buffer := log_buffer st @ [entry]\<rparr>)
         | _ \<Rightarrow> st\<lparr>log_buffer := log_buffer st @ [entry]\<rparr>))"

text \<open>
  Modelled from the spec: \<open>handleInteraction\<close>, the single operation of
  the Session Engine. A fault of any step becomes an \<open>END\<close> response with
  the message of the fault and an error-flagged log entry (step 8); an
  applied turn is answered with its response and logged; a re-delivery is
  answered with the computed response of the interaction, which has its log
  entry already.
\<close>

definition handleInteraction ::
  "env \<Rightarrow> service_definition list \<Rightarrow> timestamp \<Rightarrow> request \<Rightarrow> system \<Rightarrow> string \<times> system" where
  "handleInteraction e catalog now req st =
     (case interact e catalog now req st of
        (Inl f, u, s, st') \<Rightarrow>
          (''END '' @ fault_message f,
           logger_record e
             (entry_of e now req u s (''END '' @ fault_message f) (Some (fault_name f))) st')
      | (Inr (Applied resp err), u, s, st') \<Rightarrow>
          (resp, logger_record e (entry_of e now req u s resp err) st')
      | (Inr (Replayed resp), u, s, st') \<Rightarrow> (resp, st'))"

section \<open>The states the system can reach\<close>

text \<open>
  The database as the initialisation script leaves it, run at time 0: the
  test user in \<open>users\<close>, no session and no log.
\<close>

definition init_system :: system where
  "init_system =
     \<lparr> users_tbl =
         [\<lparr> usr_id = 1, phone_number = ''+123456789'', first_name = Some ''Utilisateur'',
            last_name = Some ''Test'', registered_at = 0, usr_last_activity = Some 0,
            usr_is_active = Some True \<rparr>],
       users_seq = 1, sessions_tbl = [], sessions_seq = 0,
       logs = [], logs_seq = 0, log_buffer = [] \<rparr>"

text \<open>
  An admin termination on the stored rows: \<open>handleEndSession\<close> of the
  Sessions page, confirmed, applied to a page that holds the stored
  sessions.
\<close>

definition admin_end :: "timestamp \<Rightarrow> int \<Rightarrow> session list \<Rightarrow> session list" where
  "admin_end now i tbl =
     sessions (handleEndSession True now i
       \<lparr> sessions = tbl,
         sessions_snackbar = \<lparr> snack_open = False, message = [], severity = ''success'' \<rparr> \<rparr>)"

text \<open>
  Modelled from the spec: the operations that change the stored sessions,
  at any clock reading. An engine turn is \<open>handleInteraction\<close>, a reaper
  run is \<open>end_inactive_sessions\<close>, and an admin termination is
  \<open>admin_end\<close>.
\<close>

inductive step :: "system \<Rightarrow> system \<Rightarrow> bool" where
  engine_turn:
    "step st (snd (handleInteraction e catalog now req st))"
| reaper_run:
    "step st (st\<lparr>sessions_tbl := fst (end_inactive_sessions now tmo (sessions_tbl st))\<rparr>)"
| admin_termination:
    "step st (st\<lparr>sessions_tbl := admin_end now i (sessions_tbl st)\<rparr>)"

text \<open>
  Modelled from the spec: the reachable states, from the initial database
  by any number of steps.
\<close>

inductive reachable :: "system \<Rightarrow> bool" where
  reachable_init: "reachable init_system"
| reachable_step: "reachable st \<Longrightarrow> step st st' \<Longrightarrow> reachable st'"

text \<open>
  One entry was handed to the Interaction Logger between two states: it is
  the last of the buffer, or the table gained one row that carries its
  response, its error flag and its error message.
\<close>

definition logged_one :: "system \<Rightarrow> system \<Rightarrow> log_entry \<Rightarrow> bool" where
  "logged_one st st' entry \<longleftrightarrow>
     (logs st' = logs st \<and> log_buffer st' = log_buffer st @ [entry])
     \<or> (log_buffer st' = log_buffer st
         \<and> length (logs st') = Suc (length (logs st))
         \<and> butlast (logs st') = logs st
         \<and> response_text (last (logs st')) = Some (entry_response entry)
         \<and> is_error (last (logs st')) = Some (entry_is_error entry)
         \<and> error_message (last (logs st')) = entry_error_message entry)"

section \<open>A run of the engine on the seeded service\<close>

text \<open>
  The menu structure of the service \<open>*123#\<close> as the initialisation script
  seeds it, and the graph it loads as. The targets that are not nodes of
  the menu are taken as the known action identifiers.
\<close>

definition seed_json :: json where
  "seed_json =
     JObject
       [(''main'', JObject
          [(''title'', JString ''Menu Principal''),
           (''options'', JArray
              [JObject [(''code'', JString ''1''), (''text'', JString ''Consultation de solde''),
                        (''next'', JString ''balance'')],
               JObject [(''code'', JString ''2''),
                        (''text'', JString (''S'' @ [CHR 0x27] @ ''inscrire aux services'')),
                        (''next'', JString ''services'')],
               JObject [(''code'', JString ''3''), (''text'', JString ''Suivi de commande''),
                        (''next'', JString ''order_tracking'')],
               JObject [(''code'', JString ''4''), (''text'', JString ''Sondages''),
                        (''next'', JString ''survey'')]])]),
        (''services'', JObject
          [(''title'', JString ''Services disponibles''),
           (''options'', JArray
              [JObject [(''code'', JString ''1''), (''text'', JString ''Service A''),
                        (''next'', JString ''service_a'')],
               JObject [(''code'', JString ''2''), (''text'', JString ''Service B''),
                        (''next'', JString ''service_b'')],
               JObject [(''code'', JString ''3''), (''text'', JString ''Service C''),
                        (''next'', JString ''service_c'')]])])]"

definition seed_main :: menu_node where
  "seed_main =
     \<lparr> title = ''Menu Principal'',
       options =
         [\<lparr> opt_code = ''1'', opt_text = ''Consultation de solde'', opt_next = ''balance'' \<rparr>,
          \<lparr> opt_code = ''2'', opt_text = ''S'' @ [CHR 0x27] @ ''inscrire aux services'',
            opt_next = ''services'' \<rparr>,
          \<lparr> opt_code = ''3'', opt_text = ''Suivi de commande'', opt_next = ''order_tracking'' \<rparr>,
          \<lparr> opt_code = ''4'', opt_text = ''Sondages'', opt_next = ''survey'' \<rparr>] \<rparr>"

definition seed_services :: menu_node where
  "seed_services =
     \<lparr> title = ''Services disponibles'',
       options =
         [\<lparr> opt_code = ''1'', opt_text = ''Service A'', opt_next = ''service_a'' \<rparr>,
          \<lparr> opt_code = ''2'', opt_text = ''Service B'', opt_next = ''service_b'' \<rparr>,
          \<lparr> opt_code = ''3'', opt_text = ''Service C'', opt_next = ''service_c'' \<rparr>] \<rparr>"

definition seed_menu :: menu_graph where
  "seed_menu = [(''main'', seed_main), (''services'', seed_services)]"

definition seed_actions :: "string list" where
  "seed_actions = [''balance'', ''order_tracking'', ''survey'', ''service_a'', ''service_b'', ''service_c'']"

definition seed_service :: service_definition where
  "seed_service = \<lparr> def_code = ''*123#'', def_menu = seed_menu, def_active = True \<rparr>"

definition seed_catalog :: "service_definition list" where
  "seed_catalog = [seed_service]"

text \<open>
  The surroundings of the run: no fault of the store, the logger within
  reach, a resolver that knows the action \<open>service_a\<close> and fails on the
  others, the default retry limit.
\<close>

definition demo_env :: env where
  "demo_env =
     \<lparr> store_fault = (\<lambda>op attempt. None),
       internal_fault = None,
       logger_down = False,
       action_ids = seed_actions,
       resolver = (\<lambda>a u d c. if a = ''service_a'' then Inr ''Service A activated''
                              else Inl ''action not implemented''),
       retry_limit = default_retry_limit,
       elapsed_ms = 5 \<rparr>"



text \<open>
  The requests of the test user for the session \<open>sess_1\<close> of the seeded
  service, with the accumulated text given; and a request for a service
  that the catalog does not hold.
\<close>

definition demo_request :: "string \<Rightarrow> request" where
  "demo_request text =
     \<lparr> req_session_id = ''sess_1'', req_phone_number = ''+123456789'',
       req_service_code = ''*123#'', req_text = text \<rparr>"


text \<open>
  The system after a sequence of deliveries for the session \<open>sess_1\<close>, all
  at clock reading 10.
\<close>

definition demo_run :: "string list \<Rightarrow> system" where
  "demo_run texts =
     foldl (\<lambda>st text. snd (handleInteraction demo_env seed_catalog 10 (demo_request text) st))
           init_system texts"

definition demo_user :: user_row where
  "demo_user =
     \<lparr> usr_id = 1, phone_number = ''+123456789'', first_name = Some ''Utilisateur'',
       last_name = Some ''Test'', registered_at = 0, usr_last_activity = Some 0,
       usr_is_active = Some True \<rparr>"

text \<open>The session \<open>sess_1\<close> at the root node, with the given count of invalid inputs.\<close>

definition demo_session :: "nat \<Rightarrow> session" where
  "demo_session n =
     \<lparr> id_pk = 1, session_id = ''sess_1'', user_id = 1, service_code = Some ''*123#'',
       current_menu = Some ''main'', session_data = set_invalid_inputs n None, started_at = 10,
       last_activity = Some 10, ended_at = None, is_active = Some True \<rparr>"

text \<open>
  The demonstration data of the Sessions page: session objects carry the
  phone number besides the columns of the row.
\<close>

record page_session = "string session_row" +
  session_phone :: string

definition mock_page :: "page_session sessions_page" where
  "mock_page =
     \<lparr> sessions =
         [\<lparr> id_pk = 1, session_id = ''sess_123456789'', user_id = 1, service_code = None,
            current_menu = Some ''main'', session_data = None,
            started_at = ''2023-01-01T10:00:00Z'', last_activity = Some ''2023-01-01T10:05:00Z'',
            ended_at = None, is_active = Some True, session_phone = ''+123456789'' \<rparr>,
          \<lparr> id_pk = 2, session_id = ''sess_987654321'', user_id = 2, service_code = None,
            current_menu = Some ''services'', session_data = None,
            started_at = ''2023-01-01T09:30:00Z'', last_activity = Some ''2023-01-01T09:35:00Z'',
            ended_at = Some ''2023-01-01T09:35:00Z'', is_active = Some False,
            session_phone = ''+987654321'' \<rparr>],
       sessions_snackbar = \<lparr> snack_open = False, message = [], severity = ''success'' \<rparr> \<rparr>"

section \<open>Invariants of the stored sessions\<close>

text \<open>
  What holds of every stored session: \<open>ended_at\<close> is set exactly when the
  session is inactive, the current menu fits its column, and the response
  kept for the applied turn is a well-formed one.
\<close>

definition answered_ok :: "json option \<Rightarrow> bool" where
  "answered_ok bag =
     (case applied_turn bag of
        None \<Rightarrow> True
      | Some (t, r) \<Rightarrow> take 4 r = ''CON '' \<or> take 4 r = ''END '')"

definition ended_iff_inactive :: "('t, 'a) session_row_scheme \<Rightarrow> bool" where
  "ended_iff_inactive s \<longleftrightarrow> (ended_at s \<noteq> None \<longleftrightarrow> is_active s = Some False)"

definition row_inv :: "session \<Rightarrow> bool" where
  "row_inv s \<longleftrightarrow>
     ended_iff_inactive s \<and>
     (case current_menu s of None \<Rightarrow> True | Some n \<Rightarrow> length n \<le> 100) \<and>
     answered_ok (session_data s)"

definition sys_inv :: "system \<Rightarrow> bool" where
  "sys_inv st \<longleftrightarrow>
     distinct (map session_id (sessions_tbl st)) \<and>
     (\<forall>s \<in> set (sessions_tbl st). row_inv s)"

text \<open>
  The two ways an engine turn changes the stored sessions: by one new
  active session with a fresh identifier, created at the time of the call,
  and by writing a decided transition back to the rows that the conditional
  update selects.
\<close>

definition write_rows :: "session \<Rightarrow> session \<Rightarrow> string option \<Rightarrow> session list \<Rightarrow> session list" where
  "write_rows read new menu tbl =
     map (\<lambda>x. if update_where read new x = Some True then write_back new menu x else x) tbl"

definition appended :: "timestamp \<Rightarrow> session list \<Rightarrow> session list \<Rightarrow> bool" where
  "appended now tbl tbl' \<longleftrightarrow>
     (\<exists>w. tbl' = tbl @ [w] \<and> session_id w \<notin> set (map session_id tbl)
          \<and> is_active w = Some True \<and> ended_at w = None \<and> last_activity w = Some now
          \<and> session_data w = None
          \<and> (case current_menu w of None \<Rightarrow> True | Some m \<Rightarrow> length m \<le> 100))"

definition written :: "session list \<Rightarrow> session list \<Rightarrow> bool" where
  "written tbl tbl' \<longleftrightarrow>
     (\<exists>read new menu.
        read \<in> set tbl \<and> is_active read = Some True
        \<and> ((is_active new = Some True \<and> ended_at new = ended_at read)
             \<or> (is_active new = Some False \<and> ended_at new \<noteq> None))
        \<and> (case menu of None \<Rightarrow> True | Some m \<Rightarrow> length m \<le> 100)
        \<and> answered_ok (session_data new)
        \<and> tbl' = write_rows read new menu tbl)"

definition table_change :: "timestamp \<Rightarrow> session list \<Rightarrow> session list \<Rightarrow> bool" where
  "table_change now tbl tbl' \<longleftrightarrow>
     (\<exists>tbl1. (tbl1 = tbl \<or> appended now tbl tbl1) \<and> (tbl' = tbl1 \<or> written tbl1 tbl'))"

section \<open>Properties of the SQL layer\<close>

lemma sql_update_rows:
  "fst (sql_update cond upd rs) = map (\<lambda>r. if cond r = Some True then upd r else r) rs"
  by (induction rs) (auto split: prod.splits)

lemma sql_update_count:
  "snd (sql_update cond upd rs) = length (filter (\<lambda>r. cond r = Some True) rs)"
  by (induction rs) (auto split: prod.splits)

lemma sql_and_true_iff: "sql_and a b = Some True \<longleftrightarrow> a = Some True \<and> b = Some True"
  by (cases "(a, b)" rule: sql_and.cases) simp_all

lemma stale_where_iff:
  "stale_where now tmo s = Some True \<longleftrightarrow> is_stale now tmo s"
  by (cases "is_active s"; cases "last_activity s"; cases tmo)
     (auto simp: stale_where_def is_stale_def sql_and_true_iff sql_eq_def sql_lt_def cutoff_def)

lemma sweep_rows:
  "fst (end_inactive_sessions now tmo tbl)
     = map (\<lambda>s. if is_stale now tmo s then end_set now s else s) tbl"
  by (simp add: end_inactive_sessions_def sql_update_rows stale_where_iff)

lemma sweep_count:
  "snd (end_inactive_sessions now tmo tbl) = length (filter (is_stale now tmo) tbl)"
  by (simp add: end_inactive_sessions_def sql_update_count stale_where_iff)

lemma end_set_not_stale: "\<not> is_stale now' tmo' (end_set now s)"
  by (simp add: is_stale_def end_set_def)

lemma demo_sweep:
  "end_inactive_sessions (10 * minute) (Some 3) demo_table
     = ([end_set (10 * minute) (demo_row 1 ''sess_a'' 0), demo_row 2 ''sess_b'' (9 * minute)], 1)"
  by (simp add: end_inactive_sessions_def demo_table_def demo_row_def stale_where_def
        sql_eq_def sql_lt_def cutoff_def minute_def end_set_def)

section \<open>The reaper sweep\<close>

text \<open>
  C1. A run of \<open>end_inactive_sessions\<close> at time \<open>now\<close> replaces exactly the
  rows that are active and whose last activity is before \<open>now\<close> minus the
  timeout by the same row with \<open>is_active = FALSE\<close> and \<open>ended_at = now\<close>,
  and keeps every other row as it is, in place. In particular a row that is
  not active, and a row whose last activity is within the window, is not
  stale and so is unchanged.
\<close>

theorem sweep_ends_exactly_stale:
  "fst (end_inactive_sessions now tmo tbl)
     = map (\<lambda>s. if is_stale now tmo s
                 then s\<lparr>is_active := Some False, ended_at := Some now\<rparr> else s) tbl
   \<and> (\<forall>s \<in> set tbl. is_active s \<noteq> Some True \<longrightarrow> \<not> is_stale now tmo s)
   \<and> (\<forall>s \<in> set tbl. \<forall>la m. last_activity s = Some la \<and> tmo = Some m \<and> now - m * minute \<le> la
         \<longrightarrow> \<not> is_stale now tmo s)"
  by (auto simp: sweep_rows end_set_def is_stale_def)

theorem sweep_ends_exactly_stale_witness:
  "fst (end_inactive_sessions (10 * minute) (Some 3) demo_table)
     = [(demo_row 1 ''sess_a'' 0)\<lparr>is_active := Some False, ended_at := Some (10 * minute)\<rparr>,
        demo_row 2 ''sess_b'' (9 * minute)]
   \<and> is_stale (10 * minute) (Some 3) (demo_row 1 ''sess_a'' 0)
   \<and> \<not> is_stale (10 * minute) (Some 3) (demo_row 2 ''sess_b'' (9 * minute))"
  using sweep_ends_exactly_stale [of "10 * minute" "Some 3" demo_table]
  by (simp add: demo_table_def demo_row_def is_stale_def minute_def)

text \<open>
  C8. The sweep is idempotent. After a first sweep, a second sweep with the
  same cutoff updates no row and leaves the table as the first sweep left it,
  also when the second sweep reads a different clock value \<open>now'\<close> (so the
  \<open>ended_at\<close> values written by the first sweep are kept): the rows the
  first sweep ended are no longer active, and the rows it skipped are still
  not before the cutoff.
\<close>

theorem sweep_idempotent:
  "cutoff now' tmo' = cutoff now tmo \<Longrightarrow>
   end_inactive_sessions now' tmo' (fst (end_inactive_sessions now tmo tbl))
     = (fst (end_inactive_sessions now tmo tbl), 0)"
proof -
  assume c: "cutoff now' tmo' = cutoff now tmo"
  have same: "is_stale now' tmo' s \<longleftrightarrow> is_stale now tmo s" for s :: "(timestamp, 'a) session_row_scheme"
    using c by (auto simp: is_stale_def cutoff_def split: option.splits)
  let ?t = "fst (end_inactive_sessions now tmo tbl)"
  have none: "\<not> is_stale now' tmo' s" if "s \<in> set ?t" for s
    using that by (auto simp: sweep_rows same end_set_not_stale split: if_splits)
  have "fst (end_inactive_sessions now' tmo' ?t) = ?t"
    unfolding sweep_rows [of now' tmo' ?t] using none by (simp add: map_idI)
  moreover have "snd (end_inactive_sessions now' tmo' ?t) = 0"
    unfolding sweep_count [of now' tmo' ?t] using none by (simp add: filter_empty_conv)
  ultimately show ?thesis by (simp add: prod_eq_iff)
qed

theorem sweep_idempotent_witness:
  "cutoff (11 * minute) (Some 4) = cutoff (10 * minute) (Some 3)
   \<and> end_inactive_sessions (11 * minute) (Some 4)
        (fst (end_inactive_sessions (10 * minute) (Some 3) demo_table))
      = ([(demo_row 1 ''sess_a'' 0)\<lparr>is_active := Some False, ended_at := Some (10 * minute)\<rparr>,
          demo_row 2 ''sess_b'' (9 * minute)], 0)"
proof -
  have c: "cutoff (11 * minute) (Some 4) = cutoff (10 * minute) (Some 3)"
    by (simp add: cutoff_def minute_def)
  show ?thesis
    using c sweep_idempotent [OF c, of demo_table]
    by (simp add: demo_sweep end_set_def)
qed

text \<open>
  C10. The value returned by \<open>end_inactive_sessions\<close> is the number of
  rows that were stale, which are the rows it turned from active to
  inactive; the number of active rows before the call is the number after
  the call plus the returned value; and the returned value is 0 when no row
  is stale.
\<close>

theorem sweep_returns_number_ended:
  "snd (end_inactive_sessions now tmo tbl) = length (filter (is_stale now tmo) tbl)
   \<and> count_active tbl
       = count_active (fst (end_inactive_sessions now tmo tbl)) + snd (end_inactive_sessions now tmo tbl)
   \<and> ((\<forall>s \<in> set tbl. \<not> is_stale now tmo s) \<longrightarrow> snd (end_inactive_sessions now tmo tbl) = 0)"
proof -
  have "count_active tbl
          = count_active (map (\<lambda>s. if is_stale now tmo s then end_set now s else s) tbl)
            + length (filter (is_stale now tmo) tbl)"
    by (induction tbl) (auto simp: count_active_def is_stale_def end_set_def)
  then show ?thesis
    by (simp add: sweep_rows sweep_count filter_empty_conv)
qed

theorem sweep_returns_number_ended_witness:
  "snd (end_inactive_sessions (10 * minute) (Some 3) demo_table) = 1
   \<and> count_active demo_table = 2
   \<and> count_active (fst (end_inactive_sessions (10 * minute) (Some 3) demo_table)) = 1
   \<and> list_all (\<lambda>s. \<not> is_stale (10 * minute) (Some 20) s) demo_table
   \<and> snd (end_inactive_sessions (10 * minute) (Some 20) demo_table) = 0"
proof -
  have n: "\<forall>s \<in> set demo_table. \<not> is_stale (10 * minute) (Some 20) s"
    by (simp add: demo_table_def demo_row_def is_stale_def minute_def)
  have a: "count_active demo_table = 2"
    by (simp add: count_active_def demo_table_def demo_row_def)
  show ?thesis
    using n a sweep_returns_number_ended [of "10 * minute" "Some 3" demo_table]
      sweep_returns_number_ended [of "10 * minute" "Some 20" demo_table]
    by (simp add: demo_sweep list_all_iff)
qed

section \<open>Properties of the session store\<close>

lemma varchar_length: "varchar n s = Inr s' \<Longrightarrow> length s' \<le> n"
  by (auto simp: varchar_def split: if_splits)

lemma varchar_opt_length:
  "varchar_opt n v = Inr v' \<Longrightarrow> (case v' of None \<Rightarrow> True | Some m \<Rightarrow> length m \<le> n)"
  by (auto simp: varchar_opt_def varchar_length split: option.splits sum.splits)




lemma coerce_session_fields:
  "coerce_session r = Inr r' \<Longrightarrow>
     is_active r' = is_active r \<and> ended_at r' = ended_at r \<and> last_activity r' = last_activity r
     \<and> session_data r' = session_data r \<and> id_pk r' = id_pk r
     \<and> varchar 100 (session_id r) = Inr (session_id r')
     \<and> (case current_menu r' of None \<Rightarrow> True | Some m \<Rightarrow> length m \<le> 100)"
  by (auto simp: coerce_session_def split: sum.splits dest: varchar_opt_length)

lemma insert_session_result:
  "insert_session users tbl r = Inr tbl' \<Longrightarrow>
     \<exists>r'. coerce_session r = Inr r' \<and> tbl' = tbl @ [r'] \<and> session_id r' \<notin> set (map session_id tbl)"
  by (auto simp: insert_session_def split: sum.splits if_splits)

lemma store_get_some:
  "store_get sid tbl = Some s \<Longrightarrow> s \<in> set tbl \<and> session_id s = sid"
  by (auto simp: store_get_def find_Some_iff)

lemma store_get_none:
  "store_get sid tbl = None \<Longrightarrow> sid \<notin> set (map session_id tbl)"
  by (auto simp: store_get_def find_None_iff)


lemma store_create_result:
  "store_create users tbl s = Inr (tbl', w, created) \<Longrightarrow>
     (created \<and> coerce_session s = Inr w \<and> tbl' = tbl @ [w] \<and> session_id w \<notin> set (map session_id tbl))
     \<or> (\<not> created \<and> tbl' = tbl \<and> w \<in> set tbl
         \<and> (\<exists>s'. coerce_session s = Inr s' \<and> store_get (session_id s') tbl = Some w))"
  by (auto simp: store_create_def split: sum.splits sql_error.splits option.splits
        dest!: insert_session_result dest: store_get_some)

lemma sql_update_eq:
  "sql_update cond upd tbl = (tbl', n) \<Longrightarrow>
     tbl' = map (\<lambda>r. if cond r = Some True then upd r else r) tbl
     \<and> n = length (filter (\<lambda>r. cond r = Some True) tbl)"
  using sql_update_rows [of cond upd tbl] sql_update_count [of cond upd tbl] by simp

lemma store_update_result:
  "store_update read new tbl = Inr tbl' \<Longrightarrow>
     \<exists>menu. varchar_opt 100 (current_menu new) = Inr menu \<and>
       tbl' = write_rows read new menu tbl \<and>
       (\<exists>x \<in> set tbl. update_where read new x = Some True)"
  by (auto simp: store_update_def write_rows_def filter_empty_conv
        split: sum.splits prod.splits if_splits dest!: sql_update_eq)

lemma bag_members_put:
  "bag_members (bag_put k v bag) = (k, v) # filter (\<lambda>m. fst m \<noteq> k) (bag_members bag)"
  by (simp add: bag_put_def bag_members_def)

lemma map_of_filter_other:
  "k' \<noteq> k \<Longrightarrow> map_of (filter (\<lambda>m. fst m \<noteq> k) kv) k' = map_of kv k'"
  by (induction kv) auto

lemma bag_lookup_put:
  "map_of (bag_members (bag_put k v bag)) k' = (if k' = k then Some v else map_of (bag_members bag) k')"
  by (simp add: bag_members_put map_of_filter_other)


lemma applied_turn_set: "applied_turn (set_applied_turn t r bag) = Some (t, r)"
  by (simp add: applied_turn_def set_applied_turn_def bag_lookup_put)


lemma turn_new: "turn e svc u s True now text = Inr (resp, s', err) \<Longrightarrow> s' = s"
  by (auto simp: turn_def split: option.splits)

lemma turn_seen:
  "turn e svc u s False now text = Inr (resp, s', err) \<Longrightarrow>
     last_activity s' = Some now \<and> session_id s' = session_id s \<and>
     ((is_active s' = is_active s \<and> ended_at s' = ended_at s)
      \<or> (is_active s' = Some False \<and> ended_at s' = Some now))"
  by (auto simp: turn_def ended_def Let_def split: option.splits if_splits sum.splits)

lemma turn_prefix:
  "turn e svc u s is_new now text = Inr (resp, s', err) \<Longrightarrow>
     take 4 resp = ''CON '' \<or> take 4 resp = ''END ''"
  by (auto simp: turn_def Let_def split: option.splits if_splits sum.splits)

lemma resolve_user_state:
  "resolve_user e now phone st = (r, st') \<Longrightarrow>
     sessions_tbl st' = sessions_tbl st \<and> logs st' = logs st \<and> log_buffer st' = log_buffer st
     \<and> logs_seq st' = logs_seq st \<and> sessions_seq st' = sessions_seq st"
  by (auto simp: resolve_user_def split: option.splits sum.splits)

lemma seen_result:
  "seen text s = Inr l \<Longrightarrow>
     (l = Loaded s \<and> is_active s = Some True)
     \<or> (\<exists>r. l = Redelivery s r \<and> applied_turn (session_data s) = Some (text, r))"
  by (auto simp: seen_def split: option.splits if_splits)

lemma resolve_session_result:
  "resolve_session e now req u st = (r, st') \<Longrightarrow>
     logs st' = logs st \<and> log_buffer st' = log_buffer st \<and> logs_seq st' = logs_seq st
     \<and> users_tbl st' = users_tbl st \<and> users_seq st' = users_seq st \<and>
     ((sessions_tbl st' = sessions_tbl st \<and>
        (\<forall>l. r = Inr l \<longrightarrow>
            (\<exists>s. s \<in> set (sessions_tbl st) \<and>
               ((l = Loaded s \<and> is_active s = Some True) \<or> (\<exists>x. l = Redelivery s x)))))
      \<or> (\<exists>w sid. r = Inr (Created w) \<and> sessions_tbl st' = sessions_tbl st @ [w]
            \<and> session_id w \<notin> set (map session_id (sessions_tbl st))
            \<and> coerce_session (new_session now req sid u (sessions_seq st + 1)) = Inr w))"
  by (auto simp: resolve_session_def split: option.splits sum.splits if_splits prod.splits
        dest!: store_create_result store_get_some seen_result)

lemma new_session_coerced:
  "coerce_session (new_session now req sid u i) = Inr w \<Longrightarrow>
     is_active w = Some True \<and> ended_at w = None \<and> last_activity w = Some now
     \<and> session_data w = None \<and> varchar 100 sid = Inr (session_id w)
     \<and> (case current_menu w of None \<Rightarrow> True | Some m \<Rightarrow> length m \<le> 100)"
  by (auto dest!: coerce_session_fields simp: new_session_def)

lemma persist_result:
  "persist e read new tbl = Inr tbl' \<Longrightarrow>
     \<exists>menu. varchar_opt 100 (current_menu new) = Inr menu \<and>
       tbl' = write_rows read new menu tbl \<and>
       (\<exists>x \<in> set tbl. update_where read new x = Some True)"
  by (auto simp: persist_def split: option.splits dest!: store_update_result)

lemma advance_result:
  assumes a: "advance e svc u s is_new now text st = (out, st')"
    and mem: "s \<in> set (sessions_tbl st)" and act: "is_active s = Some True"
  shows "users_tbl st' = users_tbl st \<and> users_seq st' = users_seq st
         \<and> sessions_seq st' = sessions_seq st \<and> logs st' = logs st
         \<and> logs_seq st' = logs_seq st \<and> log_buffer st' = log_buffer st
         \<and> (sessions_tbl st' = sessions_tbl st \<or> written (sessions_tbl st) (sessions_tbl st'))"
proof (cases "internal_fault e")
  case (Some f)
  with a show ?thesis by (simp add: advance_def)
next
  case None
  show ?thesis
  proof (cases "turn e svc u s is_new now text")
    case (Inl f)
    with a None show ?thesis by (simp add: advance_def)
  next
    case (Inr q)
    obtain resp s' err where q: "q = (resp, s', err)" by (cases q)
    note tr = Inr [unfolded q]
    let ?new = "s'\<lparr>session_data := set_applied_turn text resp (session_data s')\<rparr>"
    show ?thesis
    proof (cases "persist e s ?new (sessions_tbl st)")
      case (Inl f)
      with a None tr show ?thesis by (simp add: advance_def)
    next
      case (Inr tbl')
      with a None tr have st': "st' = st\<lparr>sessions_tbl := tbl'\<rparr>"
        by (simp add: advance_def)
      from persist_result [OF Inr] obtain menu where
        m: "varchar_opt 100 (current_menu ?new) = Inr menu"
        and t: "tbl' = write_rows s ?new menu (sessions_tbl st)"
        by auto
      have n: "(is_active ?new = Some True \<and> ended_at ?new = ended_at s)
                 \<or> (is_active ?new = Some False \<and> ended_at ?new \<noteq> None)"
      proof (cases is_new)
        case True
        with tr have "s' = s" by (simp add: turn_new)
        with act show ?thesis by simp
      next
        case False
        with tr have "turn e svc u s False now text = Inr (resp, s', err)" by simp
        from turn_seen [OF this] act show ?thesis by auto
      qed
      have ok: "answered_ok (session_data ?new)"
        using turn_prefix [OF tr] by (simp add: answered_ok_def applied_turn_set)
      have "written (sessions_tbl st) tbl'"
        unfolding written_def
        apply (rule exI [of _ s], rule exI [of _ ?new], rule exI [of _ menu])
        using mem act n varchar_opt_length [OF m] t ok by simp
      with st' show ?thesis by simp
    qed
  qed
qed

lemma table_change_same: "table_change now tbl tbl"
  by (auto simp: table_change_def)

lemma table_change_appended: "appended now tbl tbl' \<Longrightarrow> table_change now tbl tbl'"
  by (auto simp: table_change_def)

lemma table_change_written: "written tbl tbl' \<Longrightarrow> table_change now tbl tbl'"
  by (auto simp: table_change_def)

lemma table_change_both:
  "appended now tbl tbl1 \<Longrightarrow> written tbl1 tbl' \<Longrightarrow> table_change now tbl tbl'"
  by (auto simp: table_change_def)

lemmas table_change_intros =
  table_change_same table_change_appended table_change_written table_change_both

lemma interact_sessions:
  assumes "interact e catalog now req st = (r, u, s, st')"
  shows "logs st' = logs st \<and> log_buffer st' = log_buffer st \<and> logs_seq st' = logs_seq st
         \<and> table_change now (sessions_tbl st) (sessions_tbl st')"
proof -
  obtain r1 st1 where ru: "resolve_user e now (req_phone_number req) st = (r1, st1)"
    by (cases "resolve_user e now (req_phone_number req) st")
  from resolve_user_state [OF ru]
  have s1: "sessions_tbl st1 = sessions_tbl st" "logs st1 = logs st"
    "log_buffer st1 = log_buffer st" "logs_seq st1 = logs_seq st"
    by simp_all
  show ?thesis
  proof (cases r1)
    case (Inl f)
    with assms ru s1 show ?thesis by (auto simp: interact_def table_change_same)
  next
    case (Inr usr)
    note r1 = this
    show ?thesis
    proof (cases "resolve_service e catalog (req_service_code req)")
      case (Inl f)
      with assms ru r1 s1 show ?thesis by (auto simp: interact_def table_change_same)
    next
      case (Inr svc)
      note sv = this
      obtain r2 st2 where rs: "resolve_session e now req usr st1 = (r2, st2)"
        by (cases "resolve_session e now req usr st1")
      note res = resolve_session_result [OF rs]
      from res have l2: "logs st2 = logs st" "log_buffer st2 = log_buffer st"
        "logs_seq st2 = logs_seq st"
        using s1 by simp_all
      show ?thesis
      proof (cases r2)
        case (Inl f)
        with assms ru r1 sv rs have "st' = st2" by (simp add: interact_def)
        with res Inl s1 l2 show ?thesis
          by (auto simp: table_change_same)
      next
        case (Inr l)
        note r2 = this
        show ?thesis
        proof (cases l)
          case (Redelivery ses x)
          with assms ru r1 sv rs r2 have "st' = st2" by (simp add: interact_def)
          with res r2 Redelivery s1 l2 show ?thesis
            by (auto simp: table_change_same)
        next
          case (Loaded ses)
          obtain out st3 where ad: "advance e svc usr ses False now (req_text req) st2 = (out, st3)"
            by (cases "advance e svc usr ses False now (req_text req) st2")
          with assms ru r1 sv rs r2 Loaded have st': "st' = st3" by (simp add: interact_def)
          from res r2 Loaded have same: "sessions_tbl st2 = sessions_tbl st1"
            and mem: "ses \<in> set (sessions_tbl st2)" and act: "is_active ses = Some True"
            by auto
          from advance_result [OF ad mem act] same s1 l2 st' show ?thesis
            by (auto intro: table_change_intros)
        next
          case (Created ses)
          obtain out st3 where ad: "advance e svc usr ses True now (req_text req) st2 = (out, st3)"
            by (cases "advance e svc usr ses True now (req_text req) st2")
          with assms ru r1 sv rs r2 Created have st': "st' = st3" by (simp add: interact_def)
          from res r2 Created obtain sid where
            app: "sessions_tbl st2 = sessions_tbl st1 @ [ses]"
            and fresh: "session_id ses \<notin> set (map session_id (sessions_tbl st1))"
            and co: "coerce_session (new_session now req sid usr (sessions_seq st1 + 1)) = Inr ses"
            by auto
          from new_session_coerced [OF co] app fresh s1
          have ap: "appended now (sessions_tbl st) (sessions_tbl st2)"
            by (auto simp: appended_def)
          have mem: "ses \<in> set (sessions_tbl st2)" using app by simp
          have act: "is_active ses = Some True" using new_session_coerced [OF co] by simp
          from advance_result [OF ad mem act] ap l2 st' show ?thesis
            by (auto intro: table_change_intros)
        qed
      qed
    qed
  qed
qed

lemma insert_log_result:
  "insert_log users rows tbl r = Inr tbl' \<Longrightarrow>
     \<exists>r'. tbl' = tbl @ [r'] \<and> response_text r' = response_text r \<and> is_error r' = is_error r
          \<and> error_message r' = error_message r"
  by (auto simp: insert_log_def split: sum.splits if_splits)

lemma logger_record_effect:
  "sessions_tbl (logger_record e entry st) = sessions_tbl st
   \<and> users_tbl (logger_record e entry st) = users_tbl st
   \<and> users_seq (logger_record e entry st) = users_seq st
   \<and> sessions_seq (logger_record e entry st) = sessions_seq st
   \<and> logged_one st (logger_record e entry st) entry"
  by (auto simp: logger_record_def logged_one_def entry_row_def
        split: option.splits sum.splits dest!: insert_log_result)

lemma handle_effect:
  "table_change now (sessions_tbl st) (sessions_tbl (snd (handleInteraction e catalog now req st)))"
proof -
  obtain r u s st' where i: "interact e catalog now req st = (r, u, s, st')"
    by (cases "interact e catalog now req st") auto
  from interact_sessions [OF i] i show ?thesis
    by (cases r; cases "projr r")
       (simp_all add: handleInteraction_def logger_record_effect)
qed

section \<open>The invariant of the stored sessions\<close>


lemma write_back_session_id: "session_id (write_back new menu x) = session_id x"
  by (simp add: write_back_def)

lemma write_rows_ids: "map session_id (write_rows read new menu tbl) = map session_id tbl"
  by (induction tbl) (simp_all add: write_rows_def write_back_session_id)


lemma appended_inv:
  assumes "distinct (map session_id tbl)" "\<forall>s \<in> set tbl. row_inv s" "appended now tbl tbl'"
  shows "distinct (map session_id tbl') \<and> (\<forall>s \<in> set tbl'. row_inv s)"
  using assms
  by (auto simp: appended_def row_inv_def ended_iff_inactive_def answered_ok_def applied_turn_def
        bag_members_def)

lemma written_inv:
  assumes d: "distinct (map session_id tbl)" and rows: "\<forall>s \<in> set tbl. row_inv s"
    and w: "written tbl tbl'"
  shows "distinct (map session_id tbl') \<and> (\<forall>s \<in> set tbl'. row_inv s)"
proof -
  from w obtain read new menu where
    r: "read \<in> set tbl" "is_active read = Some True"
    and n: "(is_active new = Some True \<and> ended_at new = ended_at read)
             \<or> (is_active new = Some False \<and> ended_at new \<noteq> None)"
    and m: "case menu of None \<Rightarrow> True | Some m \<Rightarrow> length m \<le> 100"
    and ok: "answered_ok (session_data new)"
    and t: "tbl' = write_rows read new menu tbl"
    unfolding written_def by blast
  from rows r have "ended_at read = None"
    by (auto simp: row_inv_def ended_iff_inactive_def)
  with n m ok have wb: "row_inv (write_back new menu x)" for x
    by (auto simp: row_inv_def ended_iff_inactive_def write_back_def)
  from wb rows have "\<forall>s \<in> set tbl'. row_inv s"
    unfolding t write_rows_def by auto
  with d show ?thesis by (simp add: t write_rows_ids)
qed

lemma table_change_inv:
  assumes "sys_inv st" "table_change now (sessions_tbl st) (sessions_tbl st')"
  shows "sys_inv st'"
proof -
  from assms(2) obtain tbl1 where
    a: "tbl1 = sessions_tbl st \<or> appended now (sessions_tbl st) tbl1"
    and b: "sessions_tbl st' = tbl1 \<or> written tbl1 (sessions_tbl st')"
    unfolding table_change_def by blast
  from assms(1) a have 1: "distinct (map session_id tbl1) \<and> (\<forall>s \<in> set tbl1. row_inv s)"
    using appended_inv [of "sessions_tbl st" now tbl1] by (auto simp: sys_inv_def)
  with b show ?thesis
    using written_inv [of tbl1 "sessions_tbl st'"] by (auto simp: sys_inv_def)
qed






lemma sweep_fields:
  "map session_id (fst (end_inactive_sessions now tmo tbl)) = map session_id tbl
   \<and> map last_activity (fst (end_inactive_sessions now tmo tbl)) = map last_activity tbl
   \<and> map current_menu (fst (end_inactive_sessions now tmo tbl)) = map current_menu tbl"
  by (simp add: sweep_rows end_set_def)


lemma sweep_ended_iff:
  "\<forall>s \<in> set tbl. ended_iff_inactive s \<Longrightarrow>
   \<forall>s \<in> set (fst (end_inactive_sessions now tmo tbl)). ended_iff_inactive s"
  by (auto simp: sweep_rows end_set_def ended_iff_inactive_def)

lemma end_session_ended_iff:
  "\<forall>s \<in> set (sessions page). ended_iff_inactive s \<Longrightarrow>
   \<forall>s \<in> set (sessions (handleEndSession c now i page)). ended_iff_inactive s"
  by (auto simp: handleEndSession_def ended_iff_inactive_def)

lemma sweep_inv:
  assumes "sys_inv st"
  shows "sys_inv (st\<lparr>sessions_tbl := fst (end_inactive_sessions now tmo (sessions_tbl st))\<rparr>)"
proof -
  let ?t = "sessions_tbl st"
  let ?t' = "fst (end_inactive_sessions now tmo ?t)"
  have e: "row_inv (end_set now s)" if "row_inv s" for s :: session
    using that by (simp add: row_inv_def end_set_def ended_iff_inactive_def)
  have ids: "map session_id ?t' = map session_id ?t"
    using sweep_fields [of now tmo ?t] by blast
  have rows: "\<forall>s \<in> set ?t'. row_inv s"
    using assms e by (auto simp: sys_inv_def sweep_rows)
  show ?thesis
    using assms ids rows by (simp add: sys_inv_def)
qed

lemma admin_end_rows:
  "admin_end now i tbl
     = map (\<lambda>s. if id_pk s = i then s\<lparr>is_active := Some False, ended_at := Some now\<rparr> else s) tbl"
  by (simp add: admin_end_def handleEndSession_def)

lemma admin_inv:
  assumes "sys_inv st"
  shows "sys_inv (st\<lparr>sessions_tbl := admin_end now i (sessions_tbl st)\<rparr>)"
proof -
  let ?t = "sessions_tbl st"
  let ?t' = "admin_end now i ?t"
  have e: "row_inv (s\<lparr>is_active := Some False, ended_at := Some now\<rparr>)" if "row_inv s"
    for s :: session
    using that by (simp add: row_inv_def ended_iff_inactive_def)
  have ids: "map session_id ?t' = map session_id ?t"
    by (simp add: admin_end_rows)
  have rows: "\<forall>s \<in> set ?t'. row_inv s"
    using assms e by (auto simp: sys_inv_def admin_end_rows)
  show ?thesis
    using assms ids rows by (simp add: sys_inv_def)
qed

lemma step_inv: "step st st' \<Longrightarrow> sys_inv st \<Longrightarrow> sys_inv st'"
proof (induction rule: step.induct)
  case (engine_turn st e catalog now req)
  from table_change_inv [OF engine_turn handle_effect] show ?case .
next
  case (reaper_run st now tmo)
  then show ?case by (simp add: sweep_inv)
next
  case (admin_termination st now i)
  then show ?case by (simp add: admin_inv)
qed

lemma reachable_inv: "reachable st \<Longrightarrow> sys_inv st"
  by (induction rule: reachable.induct)
     (simp_all add: sys_inv_def init_system_def step_inv [unfolded sys_inv_def])


lemma reachable_demo_run: "reachable (demo_run texts)"
proof (induction texts rule: rev_induct)
  case Nil
  show ?case by (simp add: demo_run_def reachable_init)
next
  case (snoc t ts)
  from engine_turn [of "demo_run ts" demo_env seed_catalog 10 "demo_request t"] snoc
  show ?case by (auto simp: demo_run_def intro: reachable_step)
qed

section \<open>Properties of the menu catalog\<close>

lemma duplicate_code_none: "duplicate_code opts = None \<longleftrightarrow> distinct (map opt_code opts)"
  by (induction opts) auto

lemma missing_target_none:
  "missing_target known opts = None \<longleftrightarrow> (\<forall>opt \<in> set opts. opt_next opt \<in> set known)"
  by (induction opts) auto

lemma check_nodes_none:
  "check_nodes known g = None \<longleftrightarrow>
     (\<forall>(k, node) \<in> set g.
        distinct (map opt_code (options node))
        \<and> (\<forall>opt \<in> set (options node). opt_next opt \<in> set known))"
proof (induction g)
  case Nil
  show ?case by simp
next
  case (Cons kn g)
  obtain k node where kn: "kn = (k, node)" by (cases kn)
  show ?case
    unfolding kn using Cons.IH
    by (auto simp: duplicate_code_none missing_target_none split: option.splits
          simp flip: duplicate_code_none missing_target_none)
qed

lemma catalog_load_ok:
  "catalog_load acts j = Inr (g, w) \<Longrightarrow> load_menu j = Some g \<and> graph_ok acts g"
  by (auto simp: catalog_load_def graph_ok_def check_nodes_none split: option.splits)

lemma catalog_load_rejects:
  "load_menu j = Some g \<Longrightarrow> \<not> graph_ok acts g \<Longrightarrow> \<exists>err. catalog_load acts j = Inl err"
proof -
  assume l: "load_menu j = Some g" and n: "\<not> graph_ok acts g"
  have "check_nodes (map fst g @ acts) g \<noteq> None"
    using n unfolding check_nodes_none graph_ok_def by auto
  with l show ?thesis by (auto simp: catalog_load_def)
qed

lemma published_ok: "published acts catalog \<Longrightarrow> \<forall>d \<in> set catalog. graph_ok acts (def_menu d)"
proof (induction rule: published.induct)
  case (published_empty acts)
  show ?case by simp
next
  case (published_more acts catalog c active j catalog')
  then show ?case
    by (auto simp: catalog_publish_def split: sum.splits dest!: catalog_load_ok)
qed

lemma resolve_service_member:
  "resolve_service e catalog c = Inr svc \<Longrightarrow> svc \<in> set catalog \<and> def_code svc = c \<and> def_active svc"
  by (auto simp: resolve_service_def find_Some_iff split: option.splits if_splits)

lemma turn_target_known:
  assumes "graph_ok (action_ids e) (def_menu svc)"
  shows "turn e svc u s is_new now text \<noteq> Inl (OtherFault ''unknown target'')"
proof
  assume t: "turn e svc u s is_new now text = Inl (OtherFault ''unknown target'')"
  then obtain n node opt where
    nd: "map_of (def_menu svc) n = Some node"
    and f: "find (\<lambda>opt. opt_code opt = newest_token text) (options node) = Some opt"
    and nn: "map_of (def_menu svc) (opt_next opt) = None"
    and na: "opt_next opt \<notin> set (action_ids e)"
    by (auto simp: turn_def Let_def split: if_splits option.splits sum.splits)
  from nd have "(n, node) \<in> set (def_menu svc)" by (rule map_of_SomeD)
  moreover from f have "opt \<in> set (options node)" by (auto simp: find_Some_iff)
  ultimately have "opt_next opt \<in> set (map fst (def_menu svc)) \<or> opt_next opt \<in> set (action_ids e)"
    using assms by (auto simp: graph_ok_def)
  with na have "opt_next opt \<in> fst ` set (def_menu svc)" by simp
  with nn show False by (simp add: map_of_eq_None_iff)
qed

lemma find_distinct_code:
  "distinct (map opt_code opts) \<Longrightarrow> opt \<in> set opts \<Longrightarrow>
     find (\<lambda>x. opt_code x = opt_code opt) opts = Some opt"
  by (induction opts) (auto simp: image_iff)

lemma catalog_load_accepts:
  "load_menu j = Some g \<Longrightarrow> graph_ok acts g \<Longrightarrow> catalog_load acts j = Inr (g, unreachable_nodes g)"
proof -
  assume l: "load_menu j = Some g" and ok: "graph_ok acts g"
  have "check_nodes (map fst g @ acts) g = None"
    using ok unfolding check_nodes_none graph_ok_def by auto
  with l show ?thesis by (simp add: catalog_load_def)
qed

lemma catalog_publish_rejects:
  "catalog_load acts j = Inl err \<Longrightarrow> catalog_publish acts c active j catalog = Inl err"
  by (simp add: catalog_publish_def)

section \<open>Properties of the session engine\<close>


































section \<open>The stored sessions across all operations\<close>

text \<open>
  C5. Session identifiers are unique. In every reachable state no two
  stored sessions share a \<open>session_id\<close>. The Store's \<open>create\<close> keeps the
  identifiers distinct and returns a stored session; when it did not create
  one the table is unchanged. A create for an identifier that is already
  stored loads the stored session and leaves the table as it is.
\<close>

theorem session_ids_unique:
  "(reachable st \<longrightarrow> distinct (map session_id (sessions_tbl st)))
   \<and> (distinct (map session_id tbl) \<and> store_create users tbl s = Inr (tbl', w, created) \<longrightarrow>
        distinct (map session_id tbl') \<and> w \<in> set tbl' \<and> (\<not> created \<longrightarrow> tbl' = tbl))
   \<and> (coerce_session s = Inr s' \<and> store_get (session_id s') tbl = Some w \<longrightarrow>
        store_create users tbl s = Inr (tbl, w, False))"
proof -
  have 1: "distinct (map session_id (sessions_tbl st))" if "reachable st"
    using reachable_inv [OF that] by (simp add: sys_inv_def)
  have 2: "distinct (map session_id tbl') \<and> w \<in> set tbl' \<and> (\<not> created \<longrightarrow> tbl' = tbl)"
    if "distinct (map session_id tbl)" "store_create users tbl s = Inr (tbl', w, created)"
    using that store_create_result [of users tbl s tbl' w created] by auto
  have 3: "store_create users tbl s = Inr (tbl, w, False)"
    if c: "coerce_session s = Inr s'" and g: "store_get (session_id s') tbl = Some w"
  proof -
    from g have "\<exists>x \<in> set tbl. session_id x = session_id s'"
      by (auto dest: store_get_some)
    with c have "insert_session users tbl s = Inl unique_violation"
      by (auto simp: insert_session_def)
    with c g show ?thesis
      by (simp add: store_create_def)
  qed
  from 1 2 3 show ?thesis by blast
qed

theorem session_ids_unique_witness:
  "reachable (snd (handleInteraction demo_env seed_catalog 10
                     ((demo_request [])\<lparr>req_session_id := ''sess_2''\<rparr>) (demo_run [Nil, ''2''])))
   \<and> map session_id (sessions_tbl (snd (handleInteraction demo_env seed_catalog 10
                     ((demo_request [])\<lparr>req_session_id := ''sess_2''\<rparr>) (demo_run [Nil, ''2''])))) 
       = [''sess_1'', ''sess_2'']
   \<and> store_create [demo_user] [demo_session 0] (demo_session 5)
        = Inr ([demo_session 0], demo_session 0, False)"
proof -
  let ?st = "snd (handleInteraction demo_env seed_catalog 10
                     ((demo_request [])\<lparr>req_session_id := ''sess_2''\<rparr>) (demo_run [Nil, ''2'']))"
  have r: "reachable ?st"
    by (rule reachable_step [OF reachable_demo_run engine_turn])
  have t: "map session_id (sessions_tbl ?st) = [''sess_1'', ''sess_2'']"
    by code_simp
  have c: "coerce_session (demo_session 5) = Inr (demo_session 5)"
    by code_simp
  have g: "store_get (session_id (demo_session 5)) [demo_session 0] = Some (demo_session 0)"
    by code_simp
  show ?thesis
    using r t c g
      session_ids_unique [of ?st "[demo_session 0]" "[demo_user]"
        "demo_session 5" "[demo_session 0]" "demo_session 0" False "demo_session 5"]
    by simp
qed

text \<open>
  C6. In every reachable state, a stored session has \<open>ended_at\<close> set if and
  only if it is inactive: sessions are created active without \<open>ended_at\<close>,
  and every operation that ends a session (the engine at a terminal action
  or at the retry limit, the reaper, the admin page) sets \<open>is_active = false\<close>
  and \<open>ended_at\<close> together, while no operation sets \<open>ended_at\<close> on a session
  it leaves active. The reaper's sweep and the page's \<open>handleEndSession\<close>
  keep the equivalence on any rows that have it.
\<close>

theorem ended_at_iff_inactive:
  "(reachable st \<longrightarrow>
      (\<forall>s \<in> set (sessions_tbl st). ended_at s \<noteq> None \<longleftrightarrow> is_active s = Some False))
   \<and> ((\<forall>s \<in> set tbl. ended_iff_inactive s) \<longrightarrow>
      (\<forall>s \<in> set (fst (end_inactive_sessions now tmo tbl)). ended_iff_inactive s))
   \<and> ((\<forall>s \<in> set (sessions page). ended_iff_inactive s) \<longrightarrow>
      (\<forall>s \<in> set (sessions (handleEndSession confirmed now' i page)). ended_iff_inactive s))"
  using reachable_inv [of st] sweep_ended_iff [of tbl now tmo]
    end_session_ended_iff [of page confirmed now' i]
  by (auto simp: sys_inv_def row_inv_def ended_iff_inactive_def)

theorem ended_at_iff_inactive_witness:
  "reachable (demo_run [Nil, ''2'', ''2*1''])
   \<and> map ended_at (sessions_tbl (demo_run [Nil, ''2'', ''2*1''])) = [Some 10]
   \<and> map is_active (sessions_tbl (demo_run [Nil, ''2'', ''2*1''])) = [Some False]
   \<and> list_all ended_iff_inactive demo_table
   \<and> list_all ended_iff_inactive (fst (end_inactive_sessions (10 * minute) (Some 3) demo_table))
   \<and> list_all ended_iff_inactive (sessions mock_page)
   \<and> list_all ended_iff_inactive
        (sessions (handleEndSession True ''2023-01-01T10:06:00.000Z'' 1 mock_page))
   \<and> map is_active (sessions (handleEndSession True ''2023-01-01T10:06:00.000Z'' 1 mock_page))
        = [Some False, Some False]"
proof -
  have r: "reachable (demo_run [Nil, ''2'', ''2*1''])"
    by (rule reachable_demo_run)
  have e: "map ended_at (sessions_tbl (demo_run [Nil, ''2'', ''2*1''])) = [Some 10]"
    by code_simp
  have a: "map is_active (sessions_tbl (demo_run [Nil, ''2'', ''2*1''])) = [Some False]"
    by code_simp
  have d: "\<forall>s \<in> set demo_table. ended_iff_inactive s"
    by (simp add: demo_table_def demo_row_def ended_iff_inactive_def)
  have m: "\<forall>s \<in> set (sessions mock_page). ended_iff_inactive s"
    by (simp add: mock_page_def ended_iff_inactive_def)
  have h: "map is_active (sessions (handleEndSession True ''2023-01-01T10:06:00.000Z'' 1 mock_page))
        = [Some False, Some False]"
    by (simp add: handleEndSession_def mock_page_def)
  show ?thesis
    using r e a d m h
      ended_at_iff_inactive [of "demo_run [Nil, ''2'', ''2*1'']" demo_table "10 * minute" "Some 3"
        mock_page True "''2023-01-01T10:06:00.000Z''" 1]
    by (simp add: list_all_iff)
qed



section \<open>The menu catalog\<close>

text \<open>
  C4. Menu definitions are validated when they are loaded. A definition
  that the catalog's load accepts parses to a graph in which no two options
  of a node share a code and every \<open>next\<close> is a node of the graph or a
  known action identifier; a graph that keeps both rules is accepted, with
  the unreachable nodes as a warning only. A definition that parses and
  breaks either rule fails the load with an error, and so does its
  publication, whatever the catalog; a definition that does not parse fails
  the load as malformed. So every definition of a published catalog keeps
  both rules, and at request time a turn on a service resolved from a
  published catalog never meets an unknown target, and every option of a
  node is the one found for its code.
\<close>

theorem catalog_validates_at_load:
  "(\<forall>g w. catalog_load acts j = Inr (g, w) \<longrightarrow> load_menu j = Some g \<and> graph_ok acts g)
   \<and> (\<forall>g. load_menu j = Some g \<and> graph_ok acts g \<longrightarrow>
         catalog_load acts j = Inr (g, unreachable_nodes g))
   \<and> (\<forall>g. load_menu j = Some g \<and> \<not> graph_ok acts g \<longrightarrow>
         (\<exists>err. catalog_load acts j = Inl err
            \<and> (\<forall>c active cat. catalog_publish acts c active j cat = Inl err)))
   \<and> (load_menu j = None \<longrightarrow> catalog_load acts j = Inl Malformed)
   \<and> (published acts catalog \<longrightarrow> (\<forall>d \<in> set catalog. graph_ok acts (def_menu d)))
   \<and> (published (action_ids e) catalog \<and> resolve_service e catalog c = Inr svc \<longrightarrow>
         turn e svc u s is_new now text \<noteq> Inl (OtherFault ''unknown target'')
         \<and> (\<forall>n node opt. map_of (def_menu svc) n = Some node \<and> opt \<in> set (options node) \<longrightarrow>
               find (\<lambda>x. opt_code x = opt_code opt) (options node) = Some opt))"
proof -
  have 1: "\<forall>g w. catalog_load acts j = Inr (g, w) \<longrightarrow> load_menu j = Some g \<and> graph_ok acts g"
    using catalog_load_ok by blast
  have 2: "\<forall>g. load_menu j = Some g \<and> graph_ok acts g \<longrightarrow>
             catalog_load acts j = Inr (g, unreachable_nodes g)"
    using catalog_load_accepts by blast
  have 3: "\<forall>g. load_menu j = Some g \<and> \<not> graph_ok acts g \<longrightarrow>
             (\<exists>err. catalog_load acts j = Inl err
                \<and> (\<forall>c active cat. catalog_publish acts c active j cat = Inl err))"
    using catalog_load_rejects catalog_publish_rejects by blast
  have 4: "load_menu j = None \<longrightarrow> catalog_load acts j = Inl Malformed"
    by (simp add: catalog_load_def)
  have 5: "published acts catalog \<longrightarrow> (\<forall>d \<in> set catalog. graph_ok acts (def_menu d))"
    using published_ok by blast
  have 6: "published (action_ids e) catalog \<and> resolve_service e catalog c = Inr svc \<longrightarrow>
         turn e svc u s is_new now text \<noteq> Inl (OtherFault ''unknown target'')
         \<and> (\<forall>n node opt. map_of (def_menu svc) n = Some node \<and> opt \<in> set (options node) \<longrightarrow>
               find (\<lambda>x. opt_code x = opt_code opt) (options node) = Some opt)"
  proof (intro impI, elim conjE)
    assume p: "published (action_ids e) catalog" and r: "resolve_service e catalog c = Inr svc"
    from resolve_service_member [OF r] published_ok [OF p]
    have ok: "graph_ok (action_ids e) (def_menu svc)" by blast
    have a: "turn e svc u s is_new now text \<noteq> Inl (OtherFault ''unknown target'')"
      by (rule turn_target_known [OF ok])
    have b: "find (\<lambda>x. opt_code x = opt_code opt) (options node) = Some opt"
      if "map_of (def_menu svc) n = Some node" "opt \<in> set (options node)" for n node opt
    proof -
      from that(1) have "(n, node) \<in> set (def_menu svc)" by (rule map_of_SomeD)
      with ok have "distinct (map opt_code (options node))" by (auto simp: graph_ok_def)
      then show ?thesis using that(2) by (rule find_distinct_code)
    qed
    from a b show "turn e svc u s is_new now text \<noteq> Inl (OtherFault ''unknown target'')
         \<and> (\<forall>n node opt. map_of (def_menu svc) n = Some node \<and> opt \<in> set (options node) \<longrightarrow>
               find (\<lambda>x. opt_code x = opt_code opt) (options node) = Some opt)"
      by blast
  qed
  from 1 2 3 4 5 6 show ?thesis by blast
qed

theorem catalog_validates_at_load_witness:
  "catalog_load seed_actions seed_json = Inr (seed_menu, [])
   \<and> load_menu seed_json = Some seed_menu
   \<and> graph_ok seed_actions seed_menu
   \<and> catalog_load seed_actions dup_menu = Inl (DuplicateCode ''main'' ''1'')
   \<and> catalog_load [''option1'', ''option2''] dangling_menu = Inl (MissingTarget ''main'' ''nowhere'')
   \<and> catalog_publish seed_actions ''*123#'' True dup_menu seed_catalog
       = Inl (DuplicateCode ''main'' ''1'')
   \<and> catalog_load seed_actions (JString ''menu'') = Inl Malformed
   \<and> published seed_actions seed_catalog
   \<and> list_all (\<lambda>d. graph_ok seed_actions (def_menu d)) seed_catalog
   \<and> resolve_service demo_env seed_catalog ''*123#'' = Inr seed_service
   \<and> turn demo_env seed_service demo_user (demo_session 0) False 10 ''1''
       = Inr (''END The request could not be completed.'',
              ended 10 (demo_session 0),
              Some ''action not implemented'')"
proof -
  have a: "catalog_load seed_actions seed_json = Inr (seed_menu, [])"
    by code_simp
  have b: "catalog_load seed_actions dup_menu = Inl (DuplicateCode ''main'' ''1'')"
    by code_simp
  have c: "catalog_load [''option1'', ''option2''] dangling_menu = Inl (MissingTarget ''main'' ''nowhere'')"
    by code_simp
  have d: "catalog_publish seed_actions ''*123#'' True dup_menu seed_catalog
             = Inl (DuplicateCode ''main'' ''1'')"
    by code_simp
  have m: "catalog_load seed_actions (JString ''menu'') = Inl Malformed"
    by code_simp
  have "catalog_publish seed_actions ''*123#'' True seed_json [] = Inr seed_catalog"
    by code_simp
  from published_more [OF published_empty this]
  have p: "published seed_actions seed_catalog" .
  have r: "resolve_service demo_env seed_catalog ''*123#'' = Inr seed_service"
    by code_simp
  have t: "turn demo_env seed_service demo_user (demo_session 0) False 10 ''1''
       = Inr (''END The request could not be completed.'',
              ended 10 (demo_session 0),
              Some ''action not implemented'')"
    by code_simp
  have ai: "action_ids demo_env = seed_actions"
    by (simp add: demo_env_def)
  note x = catalog_validates_at_load [of seed_actions seed_json seed_catalog demo_env]
  have g: "load_menu seed_json = Some seed_menu \<and> graph_ok seed_actions seed_menu"
    using x [THEN conjunct1, rule_format, OF a] .
  have "d \<in> set seed_catalog \<Longrightarrow> graph_ok seed_actions (def_menu d)" for d
    using x [THEN conjunct2, THEN conjunct2, THEN conjunct2, THEN conjunct2, THEN conjunct1,
             rule_format, OF p] .
  then have l: "list_all (\<lambda>d. graph_ok seed_actions (def_menu d)) seed_catalog"
    unfolding list_all_iff by blast
  show ?thesis
    apply (intro conjI)
    apply (rule a)
    apply (rule g [THEN conjunct1])
    apply (rule g [THEN conjunct2])
    apply (rule b)
    apply (rule c)
    apply (rule d)
    apply (rule m)
    apply (rule p)
    apply (rule l)
    apply (rule r)
    apply (rule t)
    done
qed

section \<open>The session engine\<close>







end
